theory Spec2Isabelle
  imports Complex_Main
begin

section \<open>Python strings\<close>

text \<open>
  A Python \<^verbatim>\<open>str\<close> is modelled as a \<^typ>\<open>string\<close>: each \<^typ>\<open>char\<close> stands for one code
  point below 256. The character classes below are those of CPython restricted to
  that range.
\<close>

datatype py_error = ValueError | AttributeError | IndexError

text \<open>\<^verbatim>\<open>ch.isspace()\<close>; \<^verbatim>\<open>str.strip()\<close> without argument removes the same characters.\<close>

definition py_whitespace :: "char list" where
  "py_whitespace =
     [CHR 0x09, CHR 0x0A, CHR 0x0B, CHR 0x0C, CHR 0x0D, CHR 0x1C, CHR 0x1D, CHR 0x1E,
      CHR 0x1F, CHR 0x20, CHR 0x85, CHR 0xA0]"

definition isspace :: "char \<Rightarrow> bool" where
  "isspace c = (c \<in> set py_whitespace)"

definition lstrip :: "string \<Rightarrow> string" where
  "lstrip s = dropWhile isspace s"

definition rstrip :: "string \<Rightarrow> string" where
  "rstrip s = rev (dropWhile isspace (rev s))"

definition strip :: "string \<Rightarrow> string" where
  "strip s = rstrip (lstrip s)"

text \<open>\<^verbatim>\<open>s.replace(c, "")\<close> for a one-character \<^verbatim>\<open>c\<close>.\<close>

definition remove_char :: "char \<Rightarrow> string \<Rightarrow> string" where
  "remove_char c s = filter (\<lambda>d. d \<noteq> c) s"

definition startswith :: "string \<Rightarrow> string \<Rightarrow> bool" where
  "startswith s p = (take (length p) s = p)"

text \<open>
  \<^verbatim>\<open>str.splitlines()\<close>: the line boundaries below 256 are LF, VT, FF, CR, FS, GS, RS and
  NEL; CR LF is one boundary; a final boundary opens no empty last line.
\<close>

definition linebreak :: "char \<Rightarrow> bool" where
  "linebreak c =
     (c \<in> set [CHR 0x0A, CHR 0x0B, CHR 0x0C, CHR 0x0D, CHR 0x1C, CHR 0x1D, CHR 0x1E, CHR 0x85])"

fun splitlines_from :: "string \<Rightarrow> string \<Rightarrow> string list" where
  "splitlines_from cur [] = (if cur = [] then [] else [cur])"
| "splitlines_from cur [c] = (if linebreak c then [cur] else [cur @ [c]])"
| "splitlines_from cur (c # d # cs) =
     (if c = CHR 0x0D \<and> d = CHR 0x0A then cur # splitlines_from [] cs
      else if linebreak c then cur # splitlines_from [] (d # cs)
      else splitlines_from (cur @ [c]) (d # cs))"

definition splitlines :: "string \<Rightarrow> string list" where
  "splitlines s = splitlines_from [] s"

text \<open>\<^verbatim>\<open>sep.join(xs)\<close>.\<close>

fun join :: "string \<Rightarrow> string list \<Rightarrow> string" where
  "join sep [] = []"
| "join sep [x] = x"
| "join sep (x # y # ys) = x @ sep @ join sep (y # ys)"

section \<open>urllib.parse.urlparse\<close>

text \<open>
  The scheme and the network location computed by \<^verbatim>\<open>urlsplit\<close> of CPython's
  \<^verbatim>\<open>urllib/parse.py\<close> (3.11), which \<^verbatim>\<open>urlparse\<close> passes on unchanged, and the
  \<^verbatim>\<open>ValueError\<close>s it raises. The validation of a bracketed host, which
  \<^verbatim>\<open>_check_bracketed_host\<close> delegates to the \<^verbatim>\<open>ipaddress\<close> module, is the parameter
  \<open>host_ok\<close>. \<^verbatim>\<open>_checknetloc\<close> raises only when the NFKC form of the network location
  holds one of \<^verbatim>\<open>/?#@:\<close>, which no code point below 256 produces.
\<close>

record parse_result =
  scheme :: string
  netloc :: string

definition whatwg_c0_control_or_space :: "char list" where
  "whatwg_c0_control_or_space =
     [CHR 0x00, CHR 0x01, CHR 0x02, CHR 0x03, CHR 0x04, CHR 0x05, CHR 0x06, CHR 0x07,
      CHR 0x08, CHR 0x09, CHR 0x0A, CHR 0x0B, CHR 0x0C, CHR 0x0D, CHR 0x0E, CHR 0x0F,
      CHR 0x10, CHR 0x11, CHR 0x12, CHR 0x13, CHR 0x14, CHR 0x15, CHR 0x16, CHR 0x17,
      CHR 0x18, CHR 0x19, CHR 0x1A, CHR 0x1B, CHR 0x1C, CHR 0x1D, CHR 0x1E, CHR 0x1F,
      CHR 0x20]"

definition unsafe_url_bytes_to_remove :: "char list" where
  "unsafe_url_bytes_to_remove = [CHR 0x09, CHR 0x0D, CHR 0x0A]"

definition ascii_lowercase :: string where
  "ascii_lowercase = ''abcdefghijklmnopqrstuvwxyz''"

definition ascii_uppercase :: string where
  "ascii_uppercase = ''ABCDEFGHIJKLMNOPQRSTUVWXYZ''"

definition scheme_chars :: string where
  "scheme_chars = ascii_lowercase @ ascii_uppercase @ ''0123456789'' @ ''+-.''"

definition ascii_alpha :: "char \<Rightarrow> bool" where
  "ascii_alpha c = (c \<in> set (ascii_lowercase @ ascii_uppercase))"

definition ascii_lower :: "char \<Rightarrow> char" where
  "ascii_lower c =
     (case map_of (zip ascii_uppercase ascii_lowercase) c of Some l \<Rightarrow> l | None \<Rightarrow> c)"

text \<open>\<^verbatim>\<open>netloc.partition('[')[2].partition(']')[0]\<close>.\<close>

definition bracketed_host :: "string \<Rightarrow> string" where
  "bracketed_host n =
     takeWhile (\<lambda>c. c \<noteq> CHR '']'') (drop 1 (dropWhile (\<lambda>c. c \<noteq> CHR ''['') n))"

definition urlparse :: "(string \<Rightarrow> bool) \<Rightarrow> string \<Rightarrow> py_error + parse_result" where
  "urlparse host_ok url0 =
     (let url1 = dropWhile (\<lambda>c. c \<in> set whatwg_c0_control_or_space) url0;
          url2 = filter (\<lambda>c. c \<notin> set unsafe_url_bytes_to_remove) url1;
          pre = takeWhile (\<lambda>c. c \<noteq> CHR '':'') url2;
          has_scheme = (CHR '':'' \<in> set url2 \<and> pre \<noteq> [] \<and> ascii_alpha (hd url2)
                        \<and> list_all (\<lambda>c. c \<in> set scheme_chars) pre);
          sch = (if has_scheme then map ascii_lower pre else []);
          url3 = (if has_scheme then drop (length pre + 1) url2 else url2)
      in if take 2 url3 = ''//'' then
           (let nl = takeWhile (\<lambda>c. c \<notin> set ''/?#'') (drop 2 url3)
            in if (CHR ''['' \<in> set nl \<and> CHR '']'' \<notin> set nl)
                  \<or> (CHR '']'' \<in> set nl \<and> CHR ''['' \<notin> set nl)
               then Inl ValueError
               else if CHR ''['' \<in> set nl \<and> CHR '']'' \<in> set nl \<and> \<not> host_ok (bracketed_host nl)
               then Inl ValueError
               else Inr \<lparr>scheme = sch, netloc = nl\<rparr>)
         else Inr \<lparr>scheme = sch, netloc = []\<rparr>)"

section \<open>URL handling\<close>

definition normalize_url :: "(string \<Rightarrow> bool) \<Rightarrow> string \<Rightarrow> py_error + string option" where
  "normalize_url host_ok raw =
     (let line = remove_char (CHR 0x0D) (strip raw)
      in if line = [] \<or> startswith line ''#'' then Inr None
         else if list_ex isspace line then Inr None
         else
           (case urlparse host_ok line of
              Inl e \<Rightarrow> Inl e
            | Inr parsed \<Rightarrow>
                (case (if scheme parsed = []
                       then map_sum id (Pair (''https://'' @ line)) (urlparse host_ok (''https://'' @ line))
                       else Inr (line, parsed)) of
                   Inl e \<Rightarrow> Inl e
                 | Inr (line', parsed') \<Rightarrow>
                     if scheme parsed' \<noteq> ''http'' \<and> scheme parsed' \<noteq> ''https'' then Inr None
                     else if netloc parsed' = [] then Inr None
                     else Inr (Some line'))))"

text \<open>
  \<^verbatim>\<open>read_urls\<close>: the file is its decoded text, or \<open>None\<close> when it does not exist. The loop
  carries \<^verbatim>\<open>(urls, skipped, total)\<close>; an exception of \<^verbatim>\<open>normalize_url\<close> leaves the loop.
\<close>

fun read_urls_loop ::
  "(string \<Rightarrow> bool) \<Rightarrow> string list \<Rightarrow> string list \<times> int \<times> int \<Rightarrow> py_error + (string list \<times> int \<times> int)"
where
  "read_urls_loop host_ok [] acc = Inr acc"
| "read_urls_loop host_ok (raw # raws) (us, skipped, tot) =
     (case normalize_url host_ok raw of
        Inl e \<Rightarrow> Inl e
      | Inr None \<Rightarrow>
          read_urls_loop host_ok raws
            (us, (if strip raw \<noteq> [] then skipped + 1 else skipped), tot + 1)
      | Inr (Some url) \<Rightarrow> read_urls_loop host_ok raws (us @ [url], skipped, tot + 1))"

definition read_urls ::
  "(string \<Rightarrow> bool) \<Rightarrow> string option \<Rightarrow> py_error + (string list \<times> int \<times> int)"
where
  "read_urls host_ok jobs_text =
     (case jobs_text of
        None \<Rightarrow> Inr ([], 0, 0)
      | Some text \<Rightarrow> read_urls_loop host_ok (splitlines text) ([], 0, 0))"

section \<open>Python integers and lists\<close>

text \<open>\<^verbatim>\<open>str(n)\<close> for \<^verbatim>\<open>n = len(...)\<close>: the decimal digits of a natural number.\<close>

definition digit_char :: "nat \<Rightarrow> char" where
  "digit_char d = ''0123456789'' ! d"

fun str_nat :: "nat \<Rightarrow> string" where
  "str_nat n = (if n < 10 then [digit_char n] else str_nat (n div 10) @ [digit_char (n mod 10)])"

declare str_nat.simps [simp del]

text \<open>\<^verbatim>\<open>xs[i]\<close>: a negative index counts from the end, an index out of range raises.\<close>

definition py_index :: "'a list \<Rightarrow> int \<Rightarrow> py_error + 'a" where
  "py_index xs i =
     (let j = (if i < 0 then int (length xs) + i else i)
      in if 0 \<le> j \<and> j < int (length xs) then Inr (xs ! nat j) else Inl IndexError)"

text \<open>\<^verbatim>\<open>path.with_name(n)\<close>: the last component of the path is replaced.\<close>

definition with_name :: "string \<Rightarrow> string \<Rightarrow> string" where
  "with_name p n = rev (dropWhile (\<lambda>c. c \<noteq> CHR ''/'') (rev p)) @ n"

section \<open>Session state\<close>

datatype Screen =
    MAIN_MENU | PROFILE_SELECT | OPEN_SETTINGS | OPENING | VALIDATING | FETCHING
  | AI_PROMPT_KEYWORDS | AI_PROMPT_LOCATIONS | AI_PROMPT_COMPANIES | AI_PROMPT_DISPLAY | QUIT

definition DEFAULT_TAB_LIMIT :: int where
  "DEFAULT_TAB_LIMIT = 10"

text \<open>\<^verbatim>\<open>DEFAULT_DELAY = 0.15\<close> seconds.\<close>

definition DEFAULT_DELAY :: real where
  "DEFAULT_DELAY = 15 / 100"

definition DEFAULT_COMPANIES :: "string list" where
  "DEFAULT_COMPANIES =
     [''Anduril'', ''Palantir'', ''CrowdStrike'', ''Palo Alto Networks'', ''Fortinet'',
      ''Splunk'', ''Elastic'', ''Cloudflare'', ''Zscaler'', ''SentinelOne'',
      ''Lockheed Martin'', ''Northrop Grumman'', ''Raytheon (RTX)'', ''Boeing'', ''BAE Systems'',
      ''L3Harris'', ''General Dynamics'', ''Leidos'', ''SAIC'', ''Booz Allen'',
      ''MITRE'', ''Peraton'', ''ManTech'', ''Parsons'', ''CACI'',
      ''Microsoft'', ''Google'', ''Amazon (AWS)'', ''Apple'', ''Meta'',
      ''Netflix'', ''Cisco'', ''IBM'', ''Oracle'', ''VMware'',
      ''BlueHalo'', ''Bluestaq'', ''True Anomaly'', ''Sierra Space'', ''Auria Space'',
      ''Delta Sands'', ''Pryon'', ''Trellix'', ''Mandiant'', ''Recorded Future'']"

definition COMPANY_BATCH_SIZE :: int where
  "COMPANY_BATCH_SIZE = 10"

text \<open>
  A profile. Paths are strings; \<open>search_specs\<close> is \<open>None\<close> when the profile has no
  \<^verbatim>\<open>search_specs.json\<close>.
\<close>

record Profile =
  name :: string
  path :: string
  jobs_file :: string
  search_specs :: "string option"
  urls :: "string list"
  url_count :: int

text \<open>
  The session record. \<open>validation_cancel\<close> is the state of the \<^verbatim>\<open>threading.Event\<close>; the
  thread handle is left out. \<open>ai_company_selected\<close> is declared a dictionary and holds a
  list of flags from \<^verbatim>\<open>init_ai_prompt_builder\<close> on; \<open>ai_company_batch_idx\<close> and
  \<open>ai_input_buffer\<close> are attributes that exist only once \<^verbatim>\<open>init_ai_prompt_builder\<close> has
  set them (\<open>None\<close> before).
\<close>

record AppState =
  screen :: Screen
  prev_screen :: Screen
  profiles :: "Profile list"
  profile_idx :: int
  selection_idx :: int
  message :: string
  tab_limit :: int
  delay :: real
  validation_cancel :: bool
  validation_status :: string
  validation_total :: int
  validation_completed :: int
  validation_valid :: int
  validation_failed :: int
  validation_error :: string
  ai_prompt :: string
  ai_keywords :: "string list"
  ai_locations :: "string list"
  ai_companies :: "string list"
  ai_company_selected :: "bool list"
  ai_company_filter :: string
  ai_filtered_companies :: "string list"
  ai_company_batch_idx :: "int option"
  ai_input_buffer :: "string option"

text \<open>\<^verbatim>\<open>AppState()\<close>: the defaults of the dataclass.\<close>

definition AppState_init :: AppState where
  "AppState_init =
     \<lparr>screen = MAIN_MENU, prev_screen = MAIN_MENU, profiles = [], profile_idx = 0,
      selection_idx = 0, message = [], tab_limit = DEFAULT_TAB_LIMIT, delay = DEFAULT_DELAY,
      validation_cancel = False, validation_status = ''idle'', validation_total = 0,
      validation_completed = 0, validation_valid = 0, validation_failed = 0,
      validation_error = [], ai_prompt = [], ai_keywords = [], ai_locations = [],
      ai_companies = [], ai_company_selected = [], ai_company_filter = [],
      ai_filtered_companies = [], ai_company_batch_idx = None, ai_input_buffer = None\<rparr>"

definition current_profile :: "AppState \<Rightarrow> py_error + Profile option" where
  "current_profile s =
     (if profiles s = [] then Inr None
      else map_sum id Some (py_index (profiles s) (profile_idx s)))"

section \<open>Validation\<close>

text \<open>
  What lies outside the program. A request of the \<open>i\<close>-th loop iteration answers with a
  status code and the final URL, raises \<^verbatim>\<open>httpx.HTTPError\<close>, or raises another exception
  with its message. \<open>cancel_is_set i\<close> is what \<^verbatim>\<open>validation_cancel.is_set()\<close> returns at the
  top of the \<open>i\<close>-th iteration: the interactive thread sets the event while the worker
  runs. \<open>write_text_error path\<close> is the message of the exception that writing \<open>path\<close>
  raises, if it raises, and \<open>write_text_leaves path\<close> is what such a write leaves behind:
  \<open>None\<close> when the file could not be opened and is as it was, \<open>Some n\<close> when it was opened,
  which empties it, and the first \<open>n\<close> characters of the text reached it.
\<close>

datatype net_result = Response int string | HTTPError | Exception string

record environment =
  client_head :: "nat \<Rightarrow> string \<Rightarrow> net_result"
  client_get :: "nat \<Rightarrow> string \<Rightarrow> net_result"
  cancel_is_set :: "nat \<Rightarrow> bool"
  write_text_error :: "string \<Rightarrow> string option"
  write_text_leaves :: "string \<Rightarrow> nat option"

type_synonym files = "string \<rightharpoonup> string"

text \<open>
  \<^verbatim>\<open>path.write_text(data)\<close>: the files after the write, or the message of the exception with
  the files as the failed write leaves them.
\<close>

definition write_text ::
  "environment \<Rightarrow> files \<Rightarrow> string \<Rightarrow> string \<Rightarrow> (string \<times> files) + files"
where
  "write_text env fs p data =
     (case write_text_error env p of
        None \<Rightarrow> Inr (fs(p \<mapsto> data))
      | Some msg \<Rightarrow>
          Inl (msg, case write_text_leaves env p of
                      None \<Rightarrow> fs
                    | Some n \<Rightarrow> fs(p \<mapsto> take n data)))"

text \<open>
  The inner \<^verbatim>\<open>try\<close> of the loop body: \<open>Inr ok_url\<close>, or \<open>Inl msg\<close> for an exception that the
  inner handler does not catch.
\<close>

definition probe :: "environment \<Rightarrow> nat \<Rightarrow> string \<Rightarrow> string + string option" where
  "probe env i url =
     (case client_head env i url of
        HTTPError \<Rightarrow> Inr None
      | Exception msg \<Rightarrow> Inl msg
      | Response code final \<Rightarrow>
          (case (if code \<ge> 400 then client_get env i url else Response code final) of
             HTTPError \<Rightarrow> Inr None
           | Exception msg \<Rightarrow> Inl msg
           | Response code' final' \<Rightarrow> Inr (if code' < 400 then Some final' else None)))"

text \<open>
  The worker is the sequence of its effects: each entry names the statement that has just
  run, with the session record and the files as that statement leaves them. The render
  step of the interactive thread reads the record between any two of them.
\<close>

datatype stmt =
    Thread_start | Store_completed | Store_valid | Store_failed | Store_status | Store_error
  | Write_validated | Write_report

type_synonym trace = "(stmt \<times> AppState \<times> files) list"

text \<open>The handler \<^verbatim>\<open>except Exception as exc\<close>.\<close>

definition on_exception :: "string \<Rightarrow> AppState \<Rightarrow> files \<Rightarrow> trace" where
  "on_exception msg s fs =
     [(Store_status, s\<lparr>validation_status := ''error''\<rparr>, fs),
      (Store_error, s\<lparr>validation_status := ''error'', validation_error := msg\<rparr>, fs)]"

text \<open>The statements after the loop (\<^verbatim>\<open># Write results\<close>).\<close>

definition write_results ::
  "environment \<Rightarrow> Profile \<Rightarrow> string list \<Rightarrow> string list \<Rightarrow> AppState \<Rightarrow> files \<Rightarrow> trace"
where
  "write_results env p validated failed s fs =
     (let validated_path = with_name (jobs_file p) ''jobs_validated.txt'';
          report_path = with_name (jobs_file p) ''jobs_report.txt''
      in case write_text env fs validated_path (join ''\<newline>'' validated @ ''\<newline>'') of
           Inl (msg, fs') \<Rightarrow> on_exception msg s fs'
         | Inr fs1 \<Rightarrow>
             (Write_validated, s, fs1) #
             (let report_lines =
                    [''Validated: '' @ str_nat (length validated),
                     ''Failed: '' @ str_nat (length failed),
                     [],
                     ''Failed URLs:''] @ failed
              in case write_text env fs1 report_path
                        (strip (join ''\<newline>'' report_lines) @ ''\<newline>'') of
                   Inl (msg, fs') \<Rightarrow> on_exception msg s fs'
                 | Inr fs2 \<Rightarrow>
                     [(Write_report, s, fs2),
                      (Store_status, s\<lparr>validation_status := ''done''\<rparr>, fs2)]))"

text \<open>
  The loop \<^verbatim>\<open>for url in urls\<close> from its \<open>i\<close>-th iteration on, with the local lists
  \<open>validated\<close> and \<open>failed\<close>. \<^verbatim>\<open>if ok_url\<close> holds for a non-empty string.
\<close>

fun validation_loop ::
  "environment \<Rightarrow> Profile \<Rightarrow> nat \<Rightarrow> string list \<Rightarrow> string list \<Rightarrow> string list \<Rightarrow> AppState \<Rightarrow> files
     \<Rightarrow> trace"
where
  "validation_loop env p i [] validated failed s fs = write_results env p validated failed s fs"
| "validation_loop env p i (url # rest) validated failed s fs =
     (if cancel_is_set env i
      then [(Store_status, s\<lparr>validation_status := ''cancelled''\<rparr>, fs)]
      else
        (case probe env i url of
           Inl msg \<Rightarrow> on_exception msg s fs
         | Inr ok_url \<Rightarrow>
             (let validated' = (if ok_url \<noteq> None \<and> ok_url \<noteq> Some []
                                then validated @ [the ok_url] else validated);
                  failed' = (if ok_url \<noteq> None \<and> ok_url \<noteq> Some []
                             then failed else failed @ [url]);
                  s1 = s\<lparr>validation_completed := validation_completed s + 1\<rparr>;
                  s2 = s1\<lparr>validation_valid := int (length validated')\<rparr>;
                  s3 = s2\<lparr>validation_failed := int (length failed')\<rparr>
              in (Store_completed, s1, fs) # (Store_valid, s2, fs) # (Store_failed, s3, fs) #
                 validation_loop env p (i + 1) rest validated' failed' s3 fs)))"

definition run_validation :: "environment \<Rightarrow> AppState \<Rightarrow> Profile \<Rightarrow> files \<Rightarrow> trace" where
  "run_validation env s p fs =
     (Thread_start, s, fs) # validation_loop env p 0 (urls p) [] [] s fs"

text \<open>
  \<^verbatim>\<open>start_validation\<close> returns the updated record and the profile that the new thread
  runs \<^verbatim>\<open>run_validation\<close> on, or \<open>None\<close> when it starts no thread.
\<close>

definition start_validation :: "AppState \<Rightarrow> py_error + (AppState \<times> Profile option)" where
  "start_validation s =
     (case current_profile s of
        Inl e \<Rightarrow> Inl e
      | Inr None \<Rightarrow> Inr (s\<lparr>message := ''No URLs to validate''\<rparr>, None)
      | Inr (Some p) \<Rightarrow>
          if urls p = [] then Inr (s\<lparr>message := ''No URLs to validate''\<rparr>, None)
          else Inr (s\<lparr>validation_cancel := False,
                       validation_status := ''running'',
                       validation_total := int (length (urls p)),
                       validation_completed := 0,
                       validation_valid := 0,
                       validation_failed := 0,
                       validation_error := []\<rparr>, Some p))"

text \<open>What an observer reads off an entry of the trace.\<close>

definition state_of :: "stmt \<times> AppState \<times> files \<Rightarrow> AppState" where
  "state_of e = fst (snd e)"

definition files_of :: "stmt \<times> AppState \<times> files \<Rightarrow> files" where
  "files_of e = snd (snd e)"

definition stmt_of :: "stmt \<times> AppState \<times> files \<Rightarrow> stmt" where
  "stmt_of e = fst e"

definition counters_consistent :: "AppState \<Rightarrow> bool" where
  "counters_consistent s =
     (validation_valid s + validation_failed s = validation_completed s)"

definition counters_le :: "AppState \<Rightarrow> AppState \<Rightarrow> bool" where
  "counters_le s t =
     (validation_completed s \<le> validation_completed t
      \<and> validation_valid s \<le> validation_valid t
      \<and> validation_failed s \<le> validation_failed t)"

definition counters_bounded :: "AppState \<Rightarrow> bool" where
  "counters_bounded s =
     (0 \<le> validation_valid s \<and> 0 \<le> validation_failed s
      \<and> validation_valid s + validation_failed s \<le> validation_completed s
      \<and> validation_completed s \<le> validation_valid s + validation_failed s + 1
      \<and> validation_completed s \<le> validation_total s)"

text \<open>The statements between which the three counters do not yet agree.\<close>

definition mid_update :: "stmt \<Rightarrow> bool" where
  "mid_update l = (l = Store_completed \<or> l = Store_valid)"

text \<open>The state of the loop at the top of an iteration, \<open>rest\<close> being the URLs still to do.\<close>

definition loop_inv :: "string list \<Rightarrow> string list \<Rightarrow> string list \<Rightarrow> AppState \<Rightarrow> bool" where
  "loop_inv validated failed rest s =
     (validation_valid s = int (length validated)
      \<and> validation_failed s = int (length failed)
      \<and> validation_completed s = int (length validated) + int (length failed)
      \<and> validation_total s = validation_completed s + int (length rest))"

text \<open>An observation of a run over \<open>n\<close> URLs, as the worker leaves it after statement \<open>l\<close>.\<close>

definition observation_ok :: "nat \<Rightarrow> stmt \<times> AppState \<times> files \<Rightarrow> bool" where
  "observation_ok n e =
     (validation_total (state_of e) = int n
      \<and> counters_bounded (state_of e)
      \<and> (mid_update (stmt_of e) \<or> counters_consistent (state_of e)))"

text \<open>
  What a run that reaches the end of the list has collected, read off the network: the
  final URLs of the URLs it finds valid and the URLs it finds failed, both in probe order,
  \<open>i\<close> being the index of the first URL of the list.
\<close>

fun valid_urls :: "environment \<Rightarrow> nat \<Rightarrow> string list \<Rightarrow> string list" where
  "valid_urls env i [] = []"
| "valid_urls env i (u # us) =
     (case probe env i u of
        Inr (Some final) \<Rightarrow>
          if final \<noteq> [] then final # valid_urls env (Suc i) us else valid_urls env (Suc i) us
      | _ \<Rightarrow> valid_urls env (Suc i) us)"

fun failed_urls :: "environment \<Rightarrow> nat \<Rightarrow> string list \<Rightarrow> string list" where
  "failed_urls env i [] = []"
| "failed_urls env i (u # us) =
     (case probe env i u of
        Inr (Some final) \<Rightarrow>
          if final \<noteq> [] then failed_urls env (Suc i) us else u # failed_urls env (Suc i) us
      | _ \<Rightarrow> u # failed_urls env (Suc i) us)"

definition validated_path :: "Profile \<Rightarrow> string" where
  "validated_path p = with_name (jobs_file p) ''jobs_validated.txt''"

definition report_path :: "Profile \<Rightarrow> string" where
  "report_path p = with_name (jobs_file p) ''jobs_report.txt''"

definition is_write :: "stmt \<Rightarrow> bool" where
  "is_write l = (l = Write_validated \<or> l = Write_report)"

text \<open>The record and the files that a run ends with.\<close>

definition final_state :: "trace \<Rightarrow> AppState" where
  "final_state tr = state_of (last tr)"

definition final_files :: "trace \<Rightarrow> files" where
  "final_files tr = files_of (last tr)"

text \<open>No statement of the run is a write, and the files are the same after each.\<close>

definition no_write :: "files \<Rightarrow> trace \<Rightarrow> bool" where
  "no_write fs tr = list_all (\<lambda>e. \<not> is_write (stmt_of e) \<and> files_of e = fs) tr"


text \<open>
  When the interactive thread sets the cancellation flag, seen from the worker: never;
  with \<open>k\<close> URLs processed and before the worker reads the flag at the top of iteration
  \<open>k\<close>; or with \<open>k\<close> URLs processed and after that reading, while the worker probes URL
  \<open>k\<close>. \<open>flag_reads\<close> is what the worker then reads at the top of iteration \<open>i\<close>.
\<close>

datatype flag_set = Never_set | Set_before_check nat | Set_during_probe nat

fun flag_reads :: "flag_set \<Rightarrow> nat \<Rightarrow> bool" where
  "flag_reads Never_set i = False"
| "flag_reads (Set_before_check k) i = (k \<le> i)"
| "flag_reads (Set_during_probe k) i = (k < i)"

fun processed_when_set :: "flag_set \<Rightarrow> nat option" where
  "processed_when_set Never_set = None"
| "processed_when_set (Set_before_check k) = Some k"
| "processed_when_set (Set_during_probe k) = Some k"

text \<open>The texts that \<^verbatim>\<open>run_validation\<close> writes for given lists \<open>validated\<close> and \<open>failed\<close>.\<close>

definition validated_text :: "string list \<Rightarrow> string" where
  "validated_text validated = join ''\<newline>'' validated @ ''\<newline>''"

definition report_lines :: "string list \<Rightarrow> string list \<Rightarrow> string list" where
  "report_lines validated failed =
     [''Validated: '' @ str_nat (length validated), ''Failed: '' @ str_nat (length failed), [],
      ''Failed URLs:''] @ failed"

definition report_text :: "string list \<Rightarrow> string list \<Rightarrow> string" where
  "report_text validated failed =
     strip (join ''\<newline>'' (report_lines validated failed)) @ ''\<newline>''"

section \<open>Input handling\<close>

text \<open>
  The keyboard is the list of the keys that \<^verbatim>\<open>read_key\<close> will return, in order: \<^verbatim>\<open>up\<close>,
  \<^verbatim>\<open>down\<close>, \<^verbatim>\<open>left\<close>, \<^verbatim>\<open>right\<close>, \<^verbatim>\<open>esc\<close>, \<^verbatim>\<open>enter\<close> or one lower-case character. A
  function that reads keys returns what is left of the list; it waits for ever when the
  list runs out.
\<close>

datatype 'a io = Waiting | Raised py_error | Done 'a "string list"

text \<open>\<^verbatim>\<open>s.isdigit()\<close>: below 256 the digits and the superscripts two, three and one.\<close>

definition py_digits :: string where
  "py_digits = ''0123456789'' @ [CHR 0xB2, CHR 0xB3, CHR 0xB9]"

definition isdigit :: "string \<Rightarrow> bool" where
  "isdigit s = (s \<noteq> [] \<and> list_all (\<lambda>c. c \<in> set py_digits) s)"

text \<open>
  \<^verbatim>\<open>int(s)\<close> for a string of characters that satisfy \<^verbatim>\<open>isdigit\<close>: it raises unless all
  are decimal digits, and (CPython 3.11) when there are more than 4300 of them.
\<close>

definition digit_value :: "char \<Rightarrow> int" where
  "digit_value c =
     (case map_of (zip ''0123456789'' [0, 1, 2, 3, 4, 5, 6, 7, 8, 9]) c of
        Some v \<Rightarrow> v | None \<Rightarrow> 0)"

definition py_int :: "string \<Rightarrow> py_error + int" where
  "py_int s =
     (if s = [] \<or> \<not> list_all (\<lambda>c. c \<in> set ''0123456789'') s \<or> 4300 < length s
      then Inl ValueError
      else Inr (foldl (\<lambda>a c. 10 * a + digit_value c) 0 s))"

text \<open>\<^verbatim>\<open>str(i)\<close> for an integer.\<close>

definition str_int :: "int \<Rightarrow> string" where
  "str_int i = (if i < 0 then ''-'' @ str_nat (nat (- i)) else str_nat (nat i))"

text \<open>\<^verbatim>\<open>ch.isprintable()\<close>, by the characters below 256 that are not printable.\<close>

definition nonprintable :: "char list" where
  "nonprintable =
     [CHR 0x00, CHR 0x01, CHR 0x02, CHR 0x03, CHR 0x04, CHR 0x05, CHR 0x06, CHR 0x07, CHR
      0x08, CHR 0x09, CHR 0x0A, CHR 0x0B, CHR 0x0C, CHR 0x0D, CHR 0x0E, CHR 0x0F, CHR 0x10,
      CHR 0x11, CHR 0x12, CHR 0x13, CHR 0x14, CHR 0x15, CHR 0x16, CHR 0x17, CHR 0x18, CHR
      0x19, CHR 0x1A, CHR 0x1B, CHR 0x1C, CHR 0x1D, CHR 0x1E, CHR 0x1F, CHR 0x7F, CHR 0x80,
      CHR 0x81, CHR 0x82, CHR 0x83, CHR 0x84, CHR 0x85, CHR 0x86, CHR 0x87, CHR 0x88, CHR
      0x89, CHR 0x8A, CHR 0x8B, CHR 0x8C, CHR 0x8D, CHR 0x8E, CHR 0x8F, CHR 0x90, CHR 0x91,
      CHR 0x92, CHR 0x93, CHR 0x94, CHR 0x95, CHR 0x96, CHR 0x97, CHR 0x98, CHR 0x99, CHR
      0x9A, CHR 0x9B, CHR 0x9C, CHR 0x9D, CHR 0x9E, CHR 0x9F, CHR 0xA0, CHR 0xAD]"

definition isprintable :: "char \<Rightarrow> bool" where
  "isprintable c = (c \<notin> set nonprintable)"

text \<open>\<^verbatim>\<open>s.split(sep)\<close> for a one-character separator.\<close>

fun split_from :: "char \<Rightarrow> string \<Rightarrow> string \<Rightarrow> string list" where
  "split_from sep cur [] = [cur]"
| "split_from sep cur (c # cs) =
     (if c = sep then cur # split_from sep [] cs else split_from sep (cur @ [c]) cs)"

definition py_split :: "char \<Rightarrow> string \<Rightarrow> string list" where
  "py_split sep s = split_from sep [] s"

text \<open>\<^verbatim>\<open>xs[:n]\<close>.\<close>

definition slice_to :: "'a list \<Rightarrow> int \<Rightarrow> 'a list" where
  "slice_to xs n = (if n < 0 then take (nat (int (length xs) + n)) xs else take (nat n) xs)"

text \<open>
  \<^verbatim>\<open>read_number\<close> from the state of its loop: the buffer and the keys to come. The result
  is the number returned and the keys left.
\<close>

fun read_number_loop :: "int \<Rightarrow> int \<Rightarrow> string \<Rightarrow> string list \<Rightarrow> (int \<times> string list) option" where
  "read_number_loop dflt max_val buffer [] = None"
| "read_number_loop dflt max_val buffer (ch # keys) =
     (if ch = ''enter'' then
        (if buffer = [] then Some (dflt, keys)
         else
           (case py_int buffer of
              Inr val \<Rightarrow> Some (min (max 1 val) max_val, keys)
            | Inl e \<Rightarrow> Some (dflt, keys)))
      else if ch = ''b'' \<or> ch = ''esc'' then Some (- 1, keys)
      else if isdigit ch then read_number_loop dflt max_val (buffer @ ch) keys
      else if ch = [CHR 0x7F] then
        read_number_loop dflt max_val (if buffer \<noteq> [] then butlast buffer else buffer) keys
      else read_number_loop dflt max_val buffer keys)"

definition read_number :: "int \<Rightarrow> int \<Rightarrow> string list \<Rightarrow> (int \<times> string list) option" where
  "read_number dflt max_val keys = read_number_loop dflt max_val [] keys"

text \<open>\<^verbatim>\<open>read_text_input\<close> from the state of its loop; the result is \<^verbatim>\<open>(text, cancelled)\<close>.\<close>

fun read_text_input_loop :: "string \<Rightarrow> string list \<Rightarrow> ((string \<times> bool) \<times> string list) option" where
  "read_text_input_loop buffer [] = None"
| "read_text_input_loop buffer (ch # keys) =
     (if ch = ''enter'' then Some ((strip buffer, False), keys)
      else if ch = ''esc'' then Some (([], True), keys)
      else if ch = [CHR 0x7F] then
        read_text_input_loop (if buffer \<noteq> [] then butlast buffer else buffer) keys
      else if length ch = 1 \<and> list_all isprintable ch then read_text_input_loop (buffer @ ch) keys
      else read_text_input_loop buffer keys)"

definition read_text_input :: "string \<Rightarrow> string list \<Rightarrow> ((string \<times> bool) \<times> string list) option" where
  "read_text_input existing keys = read_text_input_loop existing keys"

section \<open>AI prompt generation\<close>

text \<open>
  One entry of \<^verbatim>\<open>sources\<close> in a \<^verbatim>\<open>search_specs.json\<close>: its \<^verbatim>\<open>keywords\<close> and
  \<^verbatim>\<open>locations\<close>, where it has them. \<open>load\<close> below gives, for a path, the list \<^verbatim>\<open>sources\<close>
  of the document that \<^verbatim>\<open>json.loads\<close> returns, or \<open>None\<close> where the file is missing, is not
  JSON or has no such list.
\<close>

record spec_source =
  source_keywords :: "string list option"
  source_locations :: "string list option"

definition load_search_specs ::
  "(string \<Rightarrow> spec_source list option) \<Rightarrow> Profile \<Rightarrow> spec_source list option"
where
  "load_search_specs load p =
     (case search_specs p of None \<Rightarrow> None | Some file \<Rightarrow> load file)"

text \<open>\<^verbatim>\<open>generate_ai_prompt\<close>: the fixed lines of the prompt around the three optional lines.\<close>

definition prompt_head :: "string list" where
  "prompt_head =
     [''# Job URL Search Request'',
      [],
      ''Find job posting URLs matching my criteria. Return ONLY valid, working URLs to active job listings.'',
      [],
      ''## Search Criteria'',
      []]"

definition prompt_tail :: "string list" where
  "prompt_tail =
     [[],
      ''## Instructions'',
      [],
      ''1. Search for job postings matching the criteria above'',
      ''2. Find direct links to individual job postings (not search results pages)'',
      ''3. Prioritize jobs from company career pages, Greenhouse, Lever, Workday, and iCIMS'',
      ''4. Verify each URL points to an active job posting'',
      [],
      ''## Output Format'',
      [],
      ''Return URLs with work-type tags. Use this EXACT format:'',
      [],
      ''```'',
      ''[REMOTE] https://example.com/jobs/12345'',
      ''[HYBRID] https://company.greenhouse.io/jobs/67890'',
      ''[ON-SITE: Denver, CO] https://jobs.lever.co/company/abcdef'',
      ''[REMOTE] https://careers.company.com/jobs/99999'',
      ''```'',
      [],
      ''## Tag Definitions'',
      [],
      ''- `[REMOTE]` - Fully remote position'',
      ''- `[HYBRID]` - Mix of remote and on-site'',
      ''- `[ON-SITE: Location]` - Must work at specific location'',
      ''- If work type is unclear, use `[UNKNOWN]`'',
      [],
      ''## Requirements'',
      [],
      ''- Return 20-50 unique job URLs'',
      ''- Each URL must be a direct link to a specific job posting'',
      ''- URLs must start with https:// or http://'',
      ''- No duplicate URLs'',
      ''- No expired or closed job postings'',
      ''- No general career page URLs (must be specific job listings)'',
      [],
      ''## Example Valid URLs'',
      [],
      ''- `https://boards.greenhouse.io/company/jobs/123456`'',
      ''- `https://jobs.lever.co/company/abc-def-123`'',
      ''- `https://company.wd5.myworkdayjobs.com/careers/job/Location/Title_ID`'',
      ''- `https://careers.company.com/jobs/12345`'',
      [],
      ''Provide the tagged job URLs now, one per line.'']"

definition generate_ai_prompt :: "string list \<Rightarrow> string list \<Rightarrow> string list \<Rightarrow> string" where
  "generate_ai_prompt kws locs companies =
     join ''\<newline>''
       (prompt_head
        @ (if kws \<noteq> [] then [''**Keywords:** '' @ join '', '' kws] else [])
        @ (if locs \<noteq> [] then [''**Locations:** '' @ join '', '' locs] else [])
        @ (if companies \<noteq> [] then [''**Target Companies:** '' @ join '', '' companies] else [])
        @ prompt_tail)"

text \<open>Appending the entries of a list that are not there yet, one after the other.\<close>

definition add_all_new :: "string list \<Rightarrow> string list \<Rightarrow> string list" where
  "add_all_new xs ys = foldl (\<lambda>acc y. if y \<in> set acc then acc else acc @ [y]) xs ys"

definition add_source :: "AppState \<Rightarrow> spec_source \<Rightarrow> AppState" where
  "add_source s src =
     s\<lparr>ai_keywords :=
          (case source_keywords src of None \<Rightarrow> ai_keywords s | Some kws \<Rightarrow> add_all_new (ai_keywords s) kws),
       ai_locations :=
          (case source_locations src of None \<Rightarrow> ai_locations s | Some locs \<Rightarrow> add_all_new (ai_locations s) locs)\<rparr>"

definition init_ai_prompt_builder ::
  "(string \<Rightarrow> spec_source list option) \<Rightarrow> AppState \<Rightarrow> py_error + AppState"
where
  "init_ai_prompt_builder load s =
     (case current_profile s of
        Inl e \<Rightarrow> Inl e
      | Inr cp \<Rightarrow>
          (let specs = (case cp of None \<Rightarrow> None | Some p \<Rightarrow> load_search_specs load p);
               s1 = s\<lparr>ai_keywords := [],
                      ai_locations := [],
                      ai_companies := DEFAULT_COMPANIES,
                      ai_company_selected := replicate (length DEFAULT_COMPANIES) False,
                      ai_company_batch_idx := Some 0,
                      ai_input_buffer := Some []\<rparr>
           in Inr (case specs of None \<Rightarrow> s1 | Some sources \<Rightarrow> foldl add_source s1 sources)))"

text \<open>
  The entries of a comma-separated text, stripped, appended where they are not empty and
  not there yet.
\<close>

definition add_entries :: "string list \<Rightarrow> string \<Rightarrow> string list" where
  "add_entries xs entered =
     foldl (\<lambda>acc kw. if strip kw \<noteq> [] \<and> strip kw \<notin> set acc then acc @ [strip kw] else acc)
       xs (py_split (CHR '','') entered)"

definition handle_ai_keywords :: "AppState \<Rightarrow> string \<Rightarrow> string list \<Rightarrow> AppState io" where
  "handle_ai_keywords s key keys =
     (if key = ''a'' then
        (case read_text_input [] keys of
           None \<Rightarrow> Waiting
         | Some ((entered, cancelled), keys') \<Rightarrow>
             Done (if \<not> cancelled \<and> entered \<noteq> []
                   then s\<lparr>ai_keywords := add_entries (ai_keywords s) entered\<rparr> else s) keys')
      else if key = ''c'' then Done (s\<lparr>ai_keywords := []\<rparr>) keys
      else if key = ''n'' then Done (s\<lparr>screen := AI_PROMPT_LOCATIONS\<rparr>) keys
      else if key = ''b'' \<or> key = ''esc'' then Done (s\<lparr>screen := MAIN_MENU\<rparr>) keys
      else Done s keys)"

definition handle_ai_locations :: "AppState \<Rightarrow> string \<Rightarrow> string list \<Rightarrow> AppState io" where
  "handle_ai_locations s key keys =
     (if key = ''a'' then
        (case read_text_input [] keys of
           None \<Rightarrow> Waiting
         | Some ((entered, cancelled), keys') \<Rightarrow>
             Done (if \<not> cancelled \<and> entered \<noteq> []
                   then s\<lparr>ai_locations := add_entries (ai_locations s) entered\<rparr> else s) keys')
      else if key = ''c'' then Done (s\<lparr>ai_locations := []\<rparr>) keys
      else if key = ''n'' then Done (s\<lparr>screen := AI_PROMPT_COMPANIES\<rparr>) keys
      else if key = ''b'' \<or> key = ''esc'' then Done (s\<lparr>screen := AI_PROMPT_KEYWORDS\<rparr>) keys
      else Done s keys)"

text \<open>\<^verbatim>\<open>xs[i] = not xs[i]\<close>.\<close>

definition toggle :: "bool list \<Rightarrow> int \<Rightarrow> py_error + bool list" where
  "toggle xs i =
     (let j = (if i < 0 then int (length xs) + i else i)
      in if 0 \<le> j \<and> j < int (length xs) then Inr (xs[nat j := \<not> xs ! nat j])
         else Inl IndexError)"

text \<open>
  \<^verbatim>\<open>handle_ai_companies\<close>. Reading \<^verbatim>\<open>ai_company_batch_idx\<close> raises where the attribute
  does not exist yet; the comprehension of the key \<^verbatim>\<open>n\<close> raises where the list of flags is
  shorter than the list of companies.
\<close>

definition handle_ai_companies :: "AppState \<Rightarrow> string \<Rightarrow> py_error + AppState" where
  "handle_ai_companies s key =
     (case ai_company_batch_idx s of
        None \<Rightarrow> Inl AttributeError
      | Some batch_idx \<Rightarrow>
          (let n_total = int (length (ai_companies s));
               start_idx = batch_idx * COMPANY_BATCH_SIZE;
               end_idx = min (start_idx + COMPANY_BATCH_SIZE) n_total;
               total_batches = (n_total + COMPANY_BATCH_SIZE - 1) div COMPANY_BATCH_SIZE
           in if key = ''j'' \<or> key = ''down'' then
                (if selection_idx s < end_idx - 1
                 then Inr (s\<lparr>selection_idx := selection_idx s + 1\<rparr>)
                 else if batch_idx < total_batches - 1
                 then Inr (s\<lparr>ai_company_batch_idx := Some (batch_idx + 1),
                             selection_idx := (batch_idx + 1) * COMPANY_BATCH_SIZE\<rparr>)
                 else Inr s)
              else if key = ''k'' \<or> key = ''up'' then
                (if selection_idx s > start_idx
                 then Inr (s\<lparr>selection_idx := selection_idx s - 1\<rparr>)
                 else if batch_idx > 0
                 then Inr (s\<lparr>ai_company_batch_idx := Some (batch_idx - 1),
                             selection_idx :=
                               min ((batch_idx - 1) * COMPANY_BATCH_SIZE + COMPANY_BATCH_SIZE - 1)
                                   (n_total - 1)\<rparr>)
                 else Inr s)
              else if key = ''<'' \<or> key = '','' \<or> key = ''left'' then
                (if batch_idx > 0
                 then Inr (s\<lparr>ai_company_batch_idx := Some (batch_idx - 1),
                             selection_idx := (batch_idx - 1) * COMPANY_BATCH_SIZE\<rparr>)
                 else Inr s)
              else if key = ''>'' \<or> key = ''.'' \<or> key = ''right'' then
                (if batch_idx < total_batches - 1
                 then Inr (s\<lparr>ai_company_batch_idx := Some (batch_idx + 1),
                             selection_idx := (batch_idx + 1) * COMPANY_BATCH_SIZE\<rparr>)
                 else Inr s)
              else if key = '' '' then
                (if start_idx \<le> selection_idx s \<and> selection_idx s < end_idx
                 then map_sum id (\<lambda>sel. s\<lparr>ai_company_selected := sel\<rparr>)
                        (toggle (ai_company_selected s) (selection_idx s))
                 else Inr s)
              else if isdigit key then
                (case py_int key of
                   Inl e \<Rightarrow> Inl e
                 | Inr num \<Rightarrow>
                     (let idx = start_idx + (if num = 0 then 10 else num) - 1
                      in if idx < end_idx
                         then map_sum id (\<lambda>sel. s\<lparr>ai_company_selected := sel\<rparr>)
                                (toggle (ai_company_selected s) idx)
                         else Inr s))
              else if key = ''a'' then
                Inr (s\<lparr>ai_company_selected := replicate (nat n_total) True\<rparr>)
              else if key = ''c'' then
                Inr (s\<lparr>ai_company_selected := replicate (nat n_total) False\<rparr>)
              else if key = ''n'' then
                (if length (ai_company_selected s) < length (ai_companies s) then Inl IndexError
                 else Inr (s\<lparr>ai_prompt :=
                                generate_ai_prompt (ai_keywords s) (ai_locations s)
                                  (map fst (filter snd (zip (ai_companies s) (ai_company_selected s)))),
                              screen := AI_PROMPT_DISPLAY\<rparr>))
              else if key = ''b'' \<or> key = ''esc'' then Inr (s\<lparr>screen := AI_PROMPT_LOCATIONS\<rparr>)
              else Inr s))"

text \<open>\<open>copied\<close> is what \<^verbatim>\<open>copy_to_clipboard\<close> returns.\<close>

definition handle_ai_prompt_display :: "bool \<Rightarrow> AppState \<Rightarrow> string \<Rightarrow> AppState" where
  "handle_ai_prompt_display copied s key =
     (if key = ''c'' then
        (if copied then s\<lparr>message := ''Prompt copied to clipboard!''\<rparr>
         else s\<lparr>message := ''Failed to copy - manually select and copy''\<rparr>)
      else if key = ''e'' then s\<lparr>screen := AI_PROMPT_KEYWORDS\<rparr>
      else if key = ''b'' \<or> key = ''esc'' \<or> key = ''enter'' then s\<lparr>screen := MAIN_MENU\<rparr>
      else s)"

section \<open>Main loop\<close>

text \<open>
  \<^verbatim>\<open>handle_main_menu\<close>. The second component of the result is the profile on which the key
  \<^verbatim>\<open>v\<close> has started a validation thread, if it has.
\<close>

definition handle_main_menu ::
  "(string \<Rightarrow> spec_source list option) \<Rightarrow> AppState \<Rightarrow> string \<Rightarrow> py_error + (AppState \<times> Profile option)"
where
  "handle_main_menu load s key =
     (case current_profile s of
        Inl e \<Rightarrow>
          (if key = ''o'' \<or> key = ''f'' \<or> key = ''g'' \<or> key = ''v'' then Inl e
           else if key = ''p'' then
             (if profiles s = [] then Inr (s\<lparr>message := ''No profiles available''\<rparr>, None)
              else Inr (s\<lparr>selection_idx := profile_idx s, prev_screen := MAIN_MENU,
                          screen := PROFILE_SELECT\<rparr>, None))
           else if key = ''q'' then Inr (s\<lparr>screen := QUIT\<rparr>, None)
           else Inr (s, None))
      | Inr cp \<Rightarrow>
          if key = ''o'' then
            (if cp = None \<or> urls (the cp) = [] then Inr (s\<lparr>message := ''No URLs to open''\<rparr>, None)
             else Inr (s\<lparr>prev_screen := MAIN_MENU, screen := OPEN_SETTINGS\<rparr>, None))
          else if key = ''f'' then
            (if cp = None then Inr (s\<lparr>message := ''No profile selected''\<rparr>, None)
             else if search_specs (the cp) = None
             then Inr (s\<lparr>message := ''No search_specs.json in profile''\<rparr>, None)
             else Inr (s\<lparr>prev_screen := MAIN_MENU, screen := FETCHING\<rparr>, None))
          else if key = ''g'' then
            (if cp = None then Inr (s\<lparr>message := ''No profile selected''\<rparr>, None)
             else
               (case init_ai_prompt_builder load s of
                  Inl e \<Rightarrow> Inl e
                | Inr s' \<Rightarrow>
                    Inr (s'\<lparr>prev_screen := MAIN_MENU, screen := AI_PROMPT_KEYWORDS\<rparr>, None)))
          else if key = ''v'' then
            (if cp = None \<or> urls (the cp) = []
             then Inr (s\<lparr>message := ''No URLs to validate''\<rparr>, None)
             else start_validation (s\<lparr>prev_screen := MAIN_MENU, screen := VALIDATING\<rparr>))
          else if key = ''p'' then
            (if profiles s = [] then Inr (s\<lparr>message := ''No profiles available''\<rparr>, None)
             else Inr (s\<lparr>selection_idx := profile_idx s, prev_screen := MAIN_MENU,
                         screen := PROFILE_SELECT\<rparr>, None))
          else if key = ''q'' then Inr (s\<lparr>screen := QUIT\<rparr>, None)
          else Inr (s, None))"

text \<open>
  \<^verbatim>\<open>handle_open_settings\<close>. \<^verbatim>\<open>int(DEFAULT_DELAY * 1000)\<close> is 150; the delay is stored in
  seconds.
\<close>

definition handle_open_settings :: "AppState \<Rightarrow> string list \<Rightarrow> AppState io" where
  "handle_open_settings s keys =
     (case current_profile s of
        Inl e \<Rightarrow> Raised e
      | Inr None \<Rightarrow> Raised AttributeError
      | Inr (Some p) \<Rightarrow>
          (let max_urls = int (length (urls p))
           in case read_number (min DEFAULT_TAB_LIMIT max_urls) max_urls keys of
                None \<Rightarrow> Waiting
              | Some (limit, keys1) \<Rightarrow>
                  if limit = - 1 then Done (s\<lparr>screen := MAIN_MENU\<rparr>) keys1
                  else
                    (case read_number \<lfloor>DEFAULT_DELAY * 1000\<rfloor> 5000 keys1 of
                       None \<Rightarrow> Waiting
                     | Some (delay_raw, keys2) \<Rightarrow>
                         if delay_raw = - 1
                         then Done (s\<lparr>tab_limit := limit, screen := MAIN_MENU\<rparr>) keys2
                         else Done (s\<lparr>tab_limit := limit,
                                       delay := real_of_int delay_raw / 1000,
                                       screen := OPENING\<rparr>) keys2)))"

text \<open>
  What the interactive thread finds outside the program: the check of bracketed hosts in
  \<^verbatim>\<open>urlparse\<close>, the text of a list file when it is read, the \<^verbatim>\<open>sources\<close> of a
  \<^verbatim>\<open>search_specs.json\<close>, whether \<^verbatim>\<open>pbcopy\<close> succeeds, and what \<^verbatim>\<open>fetch_jobs_for_profile\<close>
  returns.
\<close>

record session_env =
  bracketed_host_ok :: "string \<Rightarrow> bool"
  jobs_text :: "string \<Rightarrow> string option"
  load_specs :: "string \<Rightarrow> spec_source list option"
  pbcopy_ok :: bool
  fetch_jobs :: "Profile \<Rightarrow> int \<times> string"

definition reload_urls :: "session_env \<Rightarrow> Profile \<Rightarrow> py_error + Profile" where
  "reload_urls env p =
     (case read_urls (bracketed_host_ok env) (jobs_text env (jobs_file p)) of
        Inl e \<Rightarrow> Inl e
      | Inr (us, skipped, tot) \<Rightarrow> Inr (p\<lparr>urls := us, url_count := int (length us)\<rparr>))"

text \<open>\<^verbatim>\<open>state.current_profile.reload_urls()\<close>: the profile is updated in the list.\<close>

definition reload_current :: "session_env \<Rightarrow> AppState \<Rightarrow> py_error + AppState" where
  "reload_current env s =
     (case current_profile s of
        Inl e \<Rightarrow> Inl e
      | Inr None \<Rightarrow> Inl AttributeError
      | Inr (Some p) \<Rightarrow>
          (case reload_urls env p of
             Inl e \<Rightarrow> Inl e
           | Inr p' \<Rightarrow>
               Inr (s\<lparr>profiles :=
                        (profiles s)
                          [nat (if profile_idx s < 0 then int (length (profiles s)) + profile_idx s
                                else profile_idx s) := p']\<rparr>)))"

definition handle_profile_select :: "session_env \<Rightarrow> AppState \<Rightarrow> string \<Rightarrow> py_error + AppState" where
  "handle_profile_select env s key =
     (if key = ''j'' \<or> key = ''down'' then
        Inr (s\<lparr>selection_idx := min (selection_idx s + 1) (int (length (profiles s)) - 1)\<rparr>)
      else if key = ''k'' \<or> key = ''up'' then
        Inr (s\<lparr>selection_idx := max (selection_idx s - 1) 0\<rparr>)
      else if key = ''enter'' then
        map_sum id (\<lambda>s'. s'\<lparr>screen := MAIN_MENU\<rparr>)
          (reload_current env (s\<lparr>profile_idx := selection_idx s\<rparr>))
      else if key = ''b'' \<or> key = ''esc'' then Inr (s\<lparr>screen := MAIN_MENU\<rparr>)
      else if key = ''q'' then Inr (s\<lparr>screen := QUIT\<rparr>)
      else Inr s)"

text \<open>
  \<^verbatim>\<open>handle_opening\<close>: the new record and the URLs handed to \<^verbatim>\<open>open_in_chrome\<close>, in order
  (a failure of one is ignored).
\<close>

definition handle_opening :: "AppState \<Rightarrow> py_error + (AppState \<times> string list)" where
  "handle_opening s =
     (case current_profile s of
        Inl e \<Rightarrow> Inl e
      | Inr None \<Rightarrow> Inl AttributeError
      | Inr (Some p) \<Rightarrow>
          (let opened = slice_to (urls p) (tab_limit s)
           in Inr (s\<lparr>message := ''Opened '' @ str_nat (length opened) @ '' tabs'',
                      screen := MAIN_MENU\<rparr>, opened)))"

definition handle_validating :: "AppState \<Rightarrow> string \<Rightarrow> AppState" where
  "handle_validating s key =
     (if validation_status s = ''running'' then
        (if key = ''c'' then s\<lparr>validation_cancel := True\<rparr> else s)
      else if key = ''b'' \<or> key = ''esc'' \<or> key = ''enter'' then s\<lparr>screen := MAIN_MENU\<rparr>
      else s)"

text \<open>\<^verbatim>\<open>handle_fetching\<close>; \<^verbatim>\<open>render_fetching\<close> reads the name of the \<^verbatim>\<open>search_specs\<close> path.\<close>

definition handle_fetching :: "session_env \<Rightarrow> AppState \<Rightarrow> py_error + AppState" where
  "handle_fetching env s =
     (case current_profile s of
        Inl e \<Rightarrow> Inl e
      | Inr None \<Rightarrow> Inl AttributeError
      | Inr (Some p) \<Rightarrow>
          if search_specs p = None then Inl AttributeError
          else
            (case fetch_jobs env p of
               (n, err) \<Rightarrow>
                 if err \<noteq> [] then
                   Inr (s\<lparr>message := ''Fetch failed: '' @ err, screen := MAIN_MENU\<rparr>)
                 else
                   map_sum id
                     (\<lambda>s'. s'\<lparr>message := ''Fetched '' @ str_int n @ '' jobs'',
                              screen := MAIN_MENU\<rparr>)
                     (reload_current env s)))"

text \<open>
  One iteration of the loop of \<^verbatim>\<open>main\<close>, as far as the session record goes. Of the
  rendering only \<^verbatim>\<open>render_message\<close> is kept, which clears the message on the main menu and
  on the profile selection; the worker thread is not part of it.
\<close>

definition lift_io :: "py_error + AppState \<Rightarrow> string list \<Rightarrow> AppState io" where
  "lift_io r keys = (case r of Inl e \<Rightarrow> Raised e | Inr s \<Rightarrow> Done s keys)"

definition main_loop_body :: "session_env \<Rightarrow> AppState \<Rightarrow> string list \<Rightarrow> AppState io" where
  "main_loop_body env s keys =
     (case screen s of
        MAIN_MENU \<Rightarrow>
          (case keys of
             [] \<Rightarrow> Waiting
           | key # keys' \<Rightarrow>
               lift_io (map_sum id fst (handle_main_menu (load_specs env) (s\<lparr>message := []\<rparr>) key))
                 keys')
      | PROFILE_SELECT \<Rightarrow>
          (case keys of
             [] \<Rightarrow> Waiting
           | key # keys' \<Rightarrow> lift_io (handle_profile_select env (s\<lparr>message := []\<rparr>) key) keys')
      | OPEN_SETTINGS \<Rightarrow> handle_open_settings s keys
      | OPENING \<Rightarrow> lift_io (map_sum id fst (handle_opening s)) keys
      | VALIDATING \<Rightarrow>
          (case keys of [] \<Rightarrow> Waiting | key # keys' \<Rightarrow> Done (handle_validating s key) keys')
      | FETCHING \<Rightarrow> lift_io (handle_fetching env s) keys
      | AI_PROMPT_KEYWORDS \<Rightarrow>
          (case keys of [] \<Rightarrow> Waiting | key # keys' \<Rightarrow> handle_ai_keywords s key keys')
      | AI_PROMPT_LOCATIONS \<Rightarrow>
          (case keys of [] \<Rightarrow> Waiting | key # keys' \<Rightarrow> handle_ai_locations s key keys')
      | AI_PROMPT_COMPANIES \<Rightarrow>
          (case keys of [] \<Rightarrow> Waiting | key # keys' \<Rightarrow> lift_io (handle_ai_companies s key) keys')
      | AI_PROMPT_DISPLAY \<Rightarrow>
          (case keys of
             [] \<Rightarrow> Waiting
           | key # keys' \<Rightarrow> Done (handle_ai_prompt_display (pbcopy_ok env) s key) keys')
      | QUIT \<Rightarrow> Done s keys)"

text \<open>
  The loop \<^verbatim>\<open>while state.screen != Screen.QUIT\<close>, cut after \<open>n\<close> iterations: the record and
  the keys left when the loop has ended or has run \<open>n\<close> times, unless it waits or raises
  before.
\<close>

fun main_loop :: "nat \<Rightarrow> session_env \<Rightarrow> AppState \<Rightarrow> string list \<Rightarrow> AppState io" where
  "main_loop 0 env s keys = Done s keys"
| "main_loop (Suc n) env s keys =
     (if screen s = QUIT then Done s keys
      else
        (case main_loop_body env s keys of
           Done s' keys' \<Rightarrow> main_loop n env s' keys'
         | Waiting \<Rightarrow> Waiting
         | Raised e \<Rightarrow> Raised e))"




text \<open>The cursor is on the page that the screen displays.\<close>

definition cursor_on_page :: "AppState \<Rightarrow> bool" where
  "cursor_on_page s =
     (case ai_company_batch_idx s of
        None \<Rightarrow> False
      | Some b \<Rightarrow>
          b * COMPANY_BATCH_SIZE \<le> selection_idx s
          \<and> selection_idx s < min (b * COMPANY_BATCH_SIZE + COMPANY_BATCH_SIZE)
                                  (int (length (ai_companies s))))"

section \<open>Example inputs\<close>

text \<open>
  A profile of three URLs and a session that holds it; a network on which the first two
  URLs answer 200 and the third times out; the same with the cancellation flag read set
  from the second iteration on, with the flag set while the last URL is probed, with a
  disk that refuses the report (leaving it as it was, or emptied), with a network that
  breaks after the first URL, and with no network at all.
\<close>

definition no_host_check :: "string \<Rightarrow> bool" where
  "no_host_check h = True"

definition demo_profile :: Profile where
  "demo_profile =
     \<lparr>name = ''demo'', path = ''profiles/demo'', jobs_file = ''profiles/demo/jobs.txt'',
      search_specs = None,
      urls = [''https://a.com/job/1'', ''https://example.com'', ''https://b.org/gone''],
      url_count = 3\<rparr>"

definition demo_state :: AppState where
  "demo_state = AppState_init\<lparr>profiles := [demo_profile]\<rparr>"

definition demo_started :: AppState where
  "demo_started = demo_state\<lparr>validation_status := ''running'', validation_total := 3\<rparr>"

definition demo_head :: "nat \<Rightarrow> string \<Rightarrow> net_result" where
  "demo_head i url = (if url = ''https://b.org/gone'' then HTTPError else Response 200 url)"

definition demo_get :: "nat \<Rightarrow> string \<Rightarrow> net_result" where
  "demo_get i url = HTTPError"

definition never :: "nat \<Rightarrow> bool" where
  "never i = False"

definition after_first :: "nat \<Rightarrow> bool" where
  "after_first i = (1 \<le> i)"

definition dead_after_first :: "nat \<Rightarrow> string \<Rightarrow> net_result" where
  "dead_after_first i url = (if i = 0 then demo_head i url else Exception ''unreachable'')"

definition disk_ok :: "string \<Rightarrow> string option" where
  "disk_ok p = None"

definition untouched :: "string \<Rightarrow> nat option" where
  "untouched p = None"

definition emptied :: "string \<Rightarrow> nat option" where
  "emptied p = Some 0"

definition report_refused :: "string \<Rightarrow> string option" where
  "report_refused p =
     (if p = ''profiles/demo/jobs_report.txt'' then Some ''Permission denied'' else None)"

definition demo_env :: environment where
  "demo_env =
     \<lparr>client_head = demo_head, client_get = demo_get, cancel_is_set = never,
      write_text_error = disk_ok, write_text_leaves = untouched\<rparr>"

definition cancel_env :: environment where
  "cancel_env = demo_env\<lparr>cancel_is_set := after_first\<rparr>"

definition refusing_env :: environment where
  "refusing_env = demo_env\<lparr>write_text_error := report_refused\<rparr>"

definition disk_full_env :: environment where
  "disk_full_env = demo_env\<lparr>write_text_error := report_refused, write_text_leaves := emptied\<rparr>"

definition crashing_env :: environment where
  "crashing_env = demo_env\<lparr>client_head := dead_after_first\<rparr>"

definition late_cancel_env :: environment where
  "late_cancel_env = demo_env\<lparr>cancel_is_set := flag_reads (Set_during_probe 2)\<rparr>"

definition offline_env :: environment where
  "offline_env = demo_env\<lparr>client_head := demo_get\<rparr>"

definition no_files :: files where
  "no_files = Map.empty"

definition old_files :: files where
  "old_files =
     [''profiles/demo/jobs_validated.txt'' \<mapsto> ''https://old.example/1\<newline>'',
      ''profiles/demo/jobs_report.txt'' \<mapsto> ''Validated: 1\<newline>Failed: 0\<newline>\<newline>Failed URLs:\<newline>'']"

text \<open>The list file of the scenario: a URL, a blank line, a bare host, a line with
  whitespace inside, a comment.\<close>

definition scenario_file :: string where
  "scenario_file =
     ''https://a.com/job/1\<newline>\<newline>example.com\<newline>  bad line\<newline>#comment\<newline>''"

text \<open>A session environment: no bracketed host is checked, no file is there.\<close>

definition no_text :: "string \<Rightarrow> string option" where
  "no_text file = None"

definition no_specs :: "string \<Rightarrow> spec_source list option" where
  "no_specs file = None"

definition no_fetch :: "Profile \<Rightarrow> int \<times> string" where
  "no_fetch p = (0, ''Fetch failed'')"

definition demo_session :: session_env where
  "demo_session =
     \<lparr>bracketed_host_ok = no_host_check, jobs_text = no_text, load_specs = no_specs,
      pbcopy_ok = True, fetch_jobs = no_fetch\<rparr>"

text \<open>The company-selection screen as the session first enters it, and with the cursor moved.\<close>

definition companies_screen :: AppState where
  "companies_screen =
     demo_state\<lparr>screen := AI_PROMPT_COMPANIES, ai_companies := DEFAULT_COMPANIES,
                ai_company_selected := replicate 45 False, ai_company_batch_idx := Some 0,
                ai_input_buffer := Some []\<rparr>"

definition cursor_at :: "int \<Rightarrow> int \<Rightarrow> AppState" where
  "cursor_at b i = companies_screen\<lparr>ai_company_batch_idx := Some b, selection_idx := i\<rparr>"

section \<open>Properties of the URL normalizer\<close>

lemmas url_defs =
  normalize_url_def urlparse_def strip_def lstrip_def rstrip_def isspace_def
  py_whitespace_def remove_char_def startswith_def whatwg_c0_control_or_space_def
  unsafe_url_bytes_to_remove_def ascii_alpha_def ascii_lowercase_def ascii_uppercase_def
  scheme_chars_def ascii_lower_def

lemma lstrip_pad: "list_all isspace ws \<Longrightarrow> lstrip (ws @ s) = lstrip s"
  by (simp add: lstrip_def list_all_iff dropWhile_append2)

lemma rstrip_pad: "list_all isspace ws \<Longrightarrow> rstrip (s @ ws) = rstrip s"
proof -
  assume "list_all isspace ws"
  then have "\<And>c. c \<in> set (rev ws) \<Longrightarrow> isspace c" by (simp add: list_all_iff)
  then have "dropWhile isspace (rev ws @ rev s) = dropWhile isspace (rev s)"
    by (rule dropWhile_append2)
  then show ?thesis by (simp add: rstrip_def)
qed

lemma lstrip_keeps: "\<not> list_all isspace s \<Longrightarrow> lstrip (s @ t) = lstrip s @ t"
  by (auto simp: lstrip_def list_all_iff dropWhile_append1)

lemma rstrip_keeps: "\<not> list_all isspace t \<Longrightarrow> rstrip (s @ t) = s @ rstrip t"
  by (auto simp: rstrip_def list_all_iff dropWhile_append1)

lemma lstrip_all_space: "list_all isspace s \<Longrightarrow> lstrip s = []"
  by (simp add: lstrip_def list_all_iff)

lemma strip_pad:
  "list_all isspace ws1 \<Longrightarrow> list_all isspace ws2 \<Longrightarrow> strip (ws1 @ s @ ws2) = strip s"
proof (cases "list_all isspace s")
  case True
  assume "list_all isspace ws1" "list_all isspace ws2"
  with True have "list_all isspace (ws1 @ s @ ws2)" by simp
  with True show ?thesis by (simp only: strip_def lstrip_all_space)
next
  case False
  assume "list_all isspace ws1" "list_all isspace ws2"
  with False show ?thesis by (simp add: strip_def lstrip_pad lstrip_keeps rstrip_pad)
qed

lemma dropWhile_none: "\<not> list_ex P xs \<Longrightarrow> dropWhile P xs = xs"
  by (cases xs) (simp_all add: list_ex_iff)

lemma strip_no_space: "\<not> list_ex isspace s \<Longrightarrow> strip s = s"
proof -
  assume a: "\<not> list_ex isspace s"
  then have "\<not> list_ex isspace (rev s)" by (simp add: list_ex_iff)
  with a show ?thesis by (simp add: strip_def lstrip_def rstrip_def dropWhile_none)
qed

lemma canonical_clean: "\<not> list_ex isspace s \<Longrightarrow> remove_char (CHR 0x0D) (strip s) = s"
  by (simp add: strip_no_space remove_char_def list_ex_iff isspace_def py_whitespace_def
      filter_id_conv)

lemma strip_interior:
  assumes "\<not> list_all isspace a" "\<not> list_all isspace b"
  shows "strip (a @ c # b) = lstrip a @ c # rstrip b"
proof -
  have "lstrip (a @ c # b) = lstrip a @ c # b" using assms(1) by (rule lstrip_keeps)
  moreover have "rstrip ((lstrip a @ [c]) @ b) = (lstrip a @ [c]) @ rstrip b"
    using assms(2) by (rule rstrip_keeps)
  ultimately show ?thesis by (simp add: strip_def)
qed

lemma normalize_url_clean:
  assumes "l \<noteq> []" "\<not> startswith l ''#''" "\<not> list_ex isspace l"
  shows "normalize_url host_ok l =
     (case urlparse host_ok l of
        Inl e \<Rightarrow> Inl e
      | Inr parsed \<Rightarrow>
          (case (if scheme parsed = []
                 then map_sum id (Pair (''https://'' @ l)) (urlparse host_ok (''https://'' @ l))
                 else Inr (l, parsed)) of
             Inl e \<Rightarrow> Inl e
           | Inr (line', parsed') \<Rightarrow>
               if scheme parsed' \<noteq> ''http'' \<and> scheme parsed' \<noteq> ''https'' then Inr None
               else if netloc parsed' = [] then Inr None
               else Inr (Some line')))"
  using assms by (simp add: normalize_url_def canonical_clean)

text \<open>What an accepted line looks like: the result is a line that \<^verbatim>\<open>urlparse\<close> accepts.\<close>

lemma normalize_url_Some_cases:
  assumes "normalize_url host_ok x = Inr (Some y)"
  obtains p where "urlparse host_ok y = Inr p" "scheme p = ''http'' \<or> scheme p = ''https''"
      "netloc p \<noteq> []" "y \<noteq> []" "\<not> startswith y ''#''" "\<not> list_ex isspace y"
      "y = remove_char (CHR 0x0D) (strip x) \<or> y = ''https://'' @ remove_char (CHR 0x0D) (strip x)"
proof -
  define line where "line = remove_char (CHR 0x0D) (strip x)"
  have nz: "line \<noteq> []" "\<not> startswith line ''#''" "\<not> list_ex isspace line"
    using assms unfolding normalize_url_def line_def [symmetric] Let_def
    by (auto split: if_splits)
  then have core: "(case urlparse host_ok line of
        Inl e \<Rightarrow> Inl e
      | Inr parsed \<Rightarrow>
          (case (if scheme parsed = []
                 then map_sum id (Pair (''https://'' @ line)) (urlparse host_ok (''https://'' @ line))
                 else Inr (line, parsed)) of
             Inl e \<Rightarrow> Inl e
           | Inr (line', parsed') \<Rightarrow>
               if scheme parsed' \<noteq> ''http'' \<and> scheme parsed' \<noteq> ''https'' then Inr None
               else if netloc parsed' = [] then Inr None
               else Inr (Some line'))) = Inr (Some y)"
    using assms unfolding normalize_url_def line_def [symmetric] Let_def by simp
  then obtain parsed where parsed: "urlparse host_ok line = Inr parsed"
    by (cases "urlparse host_ok line") simp_all
  show thesis
  proof (cases "scheme parsed = []")
    case False
    with core parsed have "y = line" "scheme parsed = ''http'' \<or> scheme parsed = ''https''"
        "netloc parsed \<noteq> []"
      by (auto split: if_splits)
    with parsed nz show thesis by (intro that [of parsed]) (simp_all add: line_def)
  next
    case True
    define y' where "y' = ''https://'' @ line"
    from core parsed True obtain p' where p': "urlparse host_ok y' = Inr p'"
      by (cases "urlparse host_ok y'") (simp_all add: y'_def)
    with core parsed True have "y = y'" "scheme p' = ''http'' \<or> scheme p' = ''https''"
        "netloc p' \<noteq> []"
      by (auto simp: y'_def split: if_splits)
    moreover have "y' \<noteq> []" "\<not> startswith y' ''#''" by (simp_all add: y'_def startswith_def)
    moreover from nz have "\<not> list_ex isspace y'"
      by (simp add: y'_def isspace_def py_whitespace_def)
    ultimately show thesis using p' by (intro that [of p']) (simp_all add: line_def y'_def)
  qed
qed

text \<open>
  Where \<^verbatim>\<open>normalize_url\<close> returns a URL, it returns that URL again when applied to it: the
  normalizer is idempotent on what it accepts.
\<close>

lemma normalize_url_idempotent:
  assumes "normalize_url host_ok x = Inr (Some y)"
  shows "normalize_url host_ok y = Inr (Some y)"
proof -
  from assms obtain p where p: "urlparse host_ok y = Inr p"
    "scheme p = ''http'' \<or> scheme p = ''https''" "netloc p \<noteq> []"
    "y \<noteq> []" "\<not> startswith y ''#''" "\<not> list_ex isspace y"
    by (rule normalize_url_Some_cases)
  then show ?thesis by (auto simp: normalize_url_clean)
qed

text \<open>An accepted URL is not empty and holds no whitespace.\<close>

lemma normalize_url_canonical:
  assumes "normalize_url host_ok x = Inr (Some y)"
  shows "y \<noteq> [] \<and> \<not> list_ex isspace y"
  using assms by (rule normalize_url_Some_cases) simp

text \<open>
  C7 (the code departs from the claim). The claim has \<^verbatim>\<open>normalize_url\<close> return a URL or
  \<open>None\<close> on every line and never raise. On the line \<^verbatim>\<open>http://[\<close> \<^verbatim>\<open>urlparse\<close> raises
  \<^verbatim>\<open>ValueError\<close> (an opening bracket without a closing one in the network location), and
  \<^verbatim>\<open>normalize_url\<close> does not catch it: the result is the exception, whatever the check of
  bracketed hosts.
\<close>

theorem normalize_url_raises_on_open_bracket:
  "normalize_url host_ok ''http://['' = Inl ValueError"
  by (simp add: url_defs)

text \<open>Deleting characters that are all whitespace commutes with \<^verbatim>\<open>strip\<close>.\<close>

lemma dropWhile_remove_cr:
  "dropWhile isspace (filter (\<lambda>d. d \<noteq> CHR 0x0D) s)
     = filter (\<lambda>d. d \<noteq> CHR 0x0D) (dropWhile isspace s)"
proof (induction s)
  case Nil
  show ?case by simp
next
  case (Cons c s)
  have "isspace (CHR 0x0D)" by (simp add: isspace_def py_whitespace_def)
  with Cons show ?case by (cases "c = CHR 0x0D") simp_all
qed

lemma strip_remove_cr: "strip (remove_char (CHR 0x0D) s) = remove_char (CHR 0x0D) (strip s)"
proof -
  let ?P = "\<lambda>d. d \<noteq> CHR 0x0D"
  have "rev (dropWhile isspace (rev (filter ?P (dropWhile isspace s))))
      = rev (dropWhile isspace (filter ?P (rev (dropWhile isspace s))))"
    by (simp only: rev_filter)
  also have "\<dots> = rev (filter ?P (dropWhile isspace (rev (dropWhile isspace s))))"
    by (simp only: dropWhile_remove_cr)
  also have "\<dots> = filter ?P (rev (dropWhile isspace (rev (dropWhile isspace s))))"
    by (simp only: rev_filter)
  finally show ?thesis
    by (simp add: strip_def lstrip_def rstrip_def remove_char_def dropWhile_remove_cr)
qed

lemma remove_cr_idem: "remove_char (CHR 0x0D) (remove_char (CHR 0x0D) s) = remove_char (CHR 0x0D) s"
  by (simp add: remove_char_def)

text \<open>
  C10. Whitespace before and after a line does not matter: the padded line gives exactly
  the result of the line itself, whatever the line. Carriage returns are deleted
  wherever they stand, before any rule: a line gives the result of the line without
  them. Any other whitespace character that has a non-whitespace character somewhere on
  both sides makes the line rejected.
\<close>

theorem normalize_url_ignores_padding:
  assumes "list_all isspace ws1" "list_all isspace ws2"
  shows "normalize_url host_ok (ws1 @ x @ ws2) = normalize_url host_ok x
    \<and> normalize_url host_ok (ws1 @ x @ ws2) = normalize_url host_ok (remove_char (CHR 0x0D) x)
    \<and> (isspace c \<and> c \<noteq> CHR 0x0D \<and> \<not> list_all isspace a \<and> \<not> list_all isspace b
        \<longrightarrow> normalize_url host_ok (ws1 @ (a @ c # b) @ ws2) = Inr None)"
proof (intro conjI impI)
  show pad: "normalize_url host_ok (ws1 @ x @ ws2) = normalize_url host_ok x"
    using assms by (simp add: normalize_url_def strip_pad)
  have "normalize_url host_ok x = normalize_url host_ok (remove_char (CHR 0x0D) x)"
    by (simp add: normalize_url_def strip_remove_cr remove_cr_idem)
  with pad show "normalize_url host_ok (ws1 @ x @ ws2)
      = normalize_url host_ok (remove_char (CHR 0x0D) x)"
    by simp
next
  assume c: "isspace c \<and> c \<noteq> CHR 0x0D \<and> \<not> list_all isspace a \<and> \<not> list_all isspace b"
  then have "strip (a @ c # b) = lstrip a @ c # rstrip b"
    by (simp add: strip_interior)
  with strip_pad [OF assms, of "a @ c # b"]
  have "strip (ws1 @ (a @ c # b) @ ws2) = lstrip a @ c # rstrip b"
    by simp
  with c have "list_ex isspace (remove_char (CHR 0x0D) (strip (ws1 @ (a @ c # b) @ ws2)))"
    by (simp add: remove_char_def)
  then show "normalize_url host_ok (ws1 @ (a @ c # b) @ ws2) = Inr None"
    by (simp add: normalize_url_def Let_def)
qed

theorem normalize_url_ignores_padding_witness:
  "list_all isspace [CHR 0x20, CHR 0x09] \<and> list_all isspace [CHR 0x20]
   \<and> normalize_url no_host_check ([CHR 0x20, CHR 0x09] @ ''example.com'' @ [CHR 0x20])
       = Inr (Some ''https://example.com'')
   \<and> normalize_url no_host_check ([CHR 0x20, CHR 0x09] @ (''exam'' @ CHR 0x0D # ''ple.com'') @ [CHR 0x20])
       = Inr (Some ''https://example.com'')
   \<and> isspace (CHR 0x20) \<and> CHR 0x20 \<noteq> CHR 0x0D
   \<and> \<not> list_all isspace ''bad'' \<and> \<not> list_all isspace ''line''
   \<and> normalize_url no_host_check ([CHR 0x20, CHR 0x09] @ (''bad'' @ CHR 0x20 # ''line'') @ [CHR 0x20])
       = Inr None"
proof -
  have ws: "list_all isspace [CHR 0x20, CHR 0x09]" "list_all isspace [CHR 0x20]"
    by (simp_all add: isspace_def py_whitespace_def)
  have c: "isspace (CHR 0x20) \<and> CHR 0x20 \<noteq> CHR 0x0D
      \<and> \<not> list_all isspace ''bad'' \<and> \<not> list_all isspace ''line''"
    by (simp add: isspace_def py_whitespace_def)
  have plain: "normalize_url no_host_check ''example.com'' = Inr (Some ''https://example.com'')"
    by (simp add: url_defs)
  have cr: "remove_char (CHR 0x0D) (''exam'' @ CHR 0x0D # ''ple.com'') = ''example.com''"
    by (simp add: remove_char_def)
  from normalize_url_ignores_padding [OF ws, of no_host_check "''example.com''" "CHR 0x20"
      "''bad''" "''line''"]
    normalize_url_ignores_padding [OF ws, THEN conjunct2, THEN conjunct1,
      of no_host_check "''exam'' @ CHR 0x0D # ''ple.com''"]
    ws c plain cr
  show ?thesis by simp
qed

section \<open>Reading a list file\<close>

text \<open>
  C4 (as stated, refuted). On the file of the scenario the claim has a skipped count of 1.
  \<^verbatim>\<open>read_urls\<close> counts every rejected line that is not blank, the comment line too: the
  count is not 1.
\<close>

theorem read_urls_scenario_skipped_not_1:
  "fst (snd (projr (read_urls no_host_check (Some scenario_file)))) \<noteq> 1"
  by (simp add: read_urls_def scenario_file_def splitlines_def linebreak_def url_defs)

text \<open>
  C4 (amended). On the file of the scenario \<^verbatim>\<open>read_urls\<close> returns the two normalized URLs,
  a skipped count of 2 (the line with interior whitespace and the comment line; the blank
  line is not counted) and a total of 5 lines.
\<close>

theorem read_urls_scenario:
  "read_urls host_ok (Some scenario_file)
     = Inr ([''https://a.com/job/1'', ''https://example.com''], 2, 5)"
  by (simp add: read_urls_def scenario_file_def splitlines_def linebreak_def url_defs)

section \<open>Properties of a validation run\<close>

lemmas demo_defs = demo_profile_def demo_state_def demo_started_def demo_head_def demo_get_def
  never_def after_first_def disk_ok_def report_refused_def untouched_def emptied_def
  disk_full_env_def crashing_env_def late_cancel_env_def demo_env_def cancel_env_def
  refusing_env_def offline_env_def no_files_def old_files_def AppState_init_def
  dead_after_first_def

lemma entry_simps [simp]:
  "state_of (l, s, fs) = s" "stmt_of (l, s, fs) = l" "files_of (l, s, fs) = fs"
  by (simp_all add: state_of_def stmt_of_def files_of_def)

lemma on_exception_obs:
  "e \<in> set (on_exception msg s fs) \<Longrightarrow>
     validation_total (state_of e) = validation_total s \<and>
     validation_completed (state_of e) = validation_completed s \<and>
     validation_valid (state_of e) = validation_valid s \<and>
     validation_failed (state_of e) = validation_failed s \<and> \<not> mid_update (stmt_of e)"
  by (auto simp: on_exception_def state_of_def stmt_of_def mid_update_def)

lemma write_results_obs:
  "e \<in> set (write_results env p validated failed s fs) \<Longrightarrow>
     validation_total (state_of e) = validation_total s \<and>
     validation_completed (state_of e) = validation_completed s \<and>
     validation_valid (state_of e) = validation_valid s \<and>
     validation_failed (state_of e) = validation_failed s \<and> \<not> mid_update (stmt_of e)"
  by (auto simp: write_results_def Let_def state_of_def stmt_of_def mid_update_def
      dest!: on_exception_obs split: sum.splits)

lemma loop_obs:
  "loop_inv validated failed rest s \<Longrightarrow>
   e \<in> set (validation_loop env p i rest validated failed s fs) \<Longrightarrow>
     validation_total (state_of e) = validation_total s \<and> counters_bounded (state_of e)
     \<and> (mid_update (stmt_of e) \<or> counters_consistent (state_of e))
     \<and> counters_le s (state_of e)"
proof (induction rest arbitrary: i validated failed s)
  case Nil
  from write_results_obs [OF Nil(2) [simplified]] Nil(1) show ?case
    by (simp add: loop_inv_def counters_bounded_def counters_consistent_def counters_le_def)
next
  case (Cons url rest)
  show ?case
  proof (cases "cancel_is_set env i")
    case True
    with Cons.prems show ?thesis
      by (auto simp: loop_inv_def counters_bounded_def counters_consistent_def counters_le_def
          state_of_def stmt_of_def mid_update_def)
  next
    case False
    show ?thesis
    proof (cases "probe env i url")
      case (Inl msg)
      with False Cons.prems(2) have "e \<in> set (on_exception msg s fs)" by simp
      from on_exception_obs [OF this] Cons.prems(1) show ?thesis
        by (simp add: loop_inv_def counters_bounded_def counters_consistent_def counters_le_def)
    next
      case (Inr ok_url)
      define validated' where "validated' = (if ok_url \<noteq> None \<and> ok_url \<noteq> Some []
                                then validated @ [the ok_url] else validated)"
      define failed' where "failed' = (if ok_url \<noteq> None \<and> ok_url \<noteq> Some []
                             then failed else failed @ [url])"
      define s1 where "s1 = s\<lparr>validation_completed := validation_completed s + 1\<rparr>"
      define s2 where "s2 = s1\<lparr>validation_valid := int (length validated')\<rparr>"
      define s3 where "s3 = s2\<lparr>validation_failed := int (length failed')\<rparr>"
      have inv3: "loop_inv validated' failed' rest s3"
        using Cons.prems(1)
        by (auto simp: loop_inv_def s3_def s2_def s1_def validated'_def failed'_def)
      have le3: "counters_le s s3"
        using Cons.prems(1)
        by (auto simp: loop_inv_def counters_le_def s3_def s2_def s1_def validated'_def failed'_def)
      from Cons.prems(2) False Inr
      consider "e = (Store_completed, s1, fs)" | "e = (Store_valid, s2, fs)"
        | "e = (Store_failed, s3, fs)"
        | "e \<in> set (validation_loop env p (i + 1) rest validated' failed' s3 fs)"
        by (auto simp: Let_def validated'_def failed'_def s1_def s2_def s3_def)
      then show ?thesis
      proof cases
        case 1
        with Cons.prems(1) show ?thesis
          by (auto simp: loop_inv_def counters_bounded_def counters_le_def state_of_def
              stmt_of_def mid_update_def s1_def)
      next
        case 2
        with Cons.prems(1) show ?thesis
          by (auto simp: loop_inv_def counters_bounded_def counters_le_def state_of_def
              stmt_of_def mid_update_def s1_def s2_def validated'_def)
      next
        case 3
        with Cons.prems(1) show ?thesis
          by (auto simp: loop_inv_def counters_bounded_def counters_le_def state_of_def
              stmt_of_def mid_update_def s1_def s2_def s3_def validated'_def failed'_def
              counters_consistent_def)
      next
        case 4
        from Cons.IH [OF inv3 4] le3 show ?thesis
          by (auto simp: counters_le_def s3_def s2_def s1_def)
      qed
    qed
  qed
qed


lemma counters_le_refl: "counters_le s s"
  by (simp add: counters_le_def)

lemma counters_le_trans: "counters_le s t \<Longrightarrow> counters_le t u \<Longrightarrow> counters_le s u"
  by (auto simp: counters_le_def)

lemma same_counters_sorted:
  assumes "\<And>e. e \<in> set tr \<Longrightarrow>
     validation_completed (state_of e) = c \<and> validation_valid (state_of e) = v \<and>
     validation_failed (state_of e) = f"
  shows "sorted_wrt counters_le (map state_of tr)"
  using assms by (induction tr) (auto simp: counters_le_def)

lemma write_results_sorted:
  "sorted_wrt counters_le (map state_of (write_results env p validated failed s fs))"
  by (rule same_counters_sorted) (use write_results_obs in blast)

lemma on_exception_sorted: "sorted_wrt counters_le (map state_of (on_exception msg s fs))"
  by (rule same_counters_sorted) (use on_exception_obs in blast)

lemma loop_sorted:
  "loop_inv validated failed rest s \<Longrightarrow>
   sorted_wrt counters_le (map state_of (validation_loop env p i rest validated failed s fs))"
proof (induction rest arbitrary: i validated failed s)
  case Nil
  show ?case by (simp add: write_results_sorted)
next
  case (Cons url rest)
  show ?case
  proof (cases "cancel_is_set env i")
    case True
    then show ?thesis by simp
  next
    case False
    show ?thesis
    proof (cases "probe env i url")
      case (Inl msg)
      with False show ?thesis by (simp add: on_exception_sorted)
    next
      case (Inr ok_url)
      define validated' where "validated' = (if ok_url \<noteq> None \<and> ok_url \<noteq> Some []
                                then validated @ [the ok_url] else validated)"
      define failed' where "failed' = (if ok_url \<noteq> None \<and> ok_url \<noteq> Some []
                             then failed else failed @ [url])"
      define s1 where "s1 = s\<lparr>validation_completed := validation_completed s + 1\<rparr>"
      define s2 where "s2 = s1\<lparr>validation_valid := int (length validated')\<rparr>"
      define s3 where "s3 = s2\<lparr>validation_failed := int (length failed')\<rparr>"
      define tl where "tl = validation_loop env p (i + 1) rest validated' failed' s3 fs"
      have inv3: "loop_inv validated' failed' rest s3"
        using Cons.prems
        by (auto simp: loop_inv_def s3_def s2_def s1_def validated'_def failed'_def)
      have steps: "counters_le s1 s2" "counters_le s2 s3"
        using Cons.prems
        by (auto simp: loop_inv_def counters_le_def s3_def s2_def s1_def validated'_def failed'_def)
      have later: "counters_le s3 (state_of e)" if "e \<in> set tl" for e
        using loop_obs [OF inv3] that unfolding tl_def by blast
      have unfold: "validation_loop env p i (url # rest) validated failed s fs =
          (Store_completed, s1, fs) # (Store_valid, s2, fs) # (Store_failed, s3, fs) # tl"
        using False Inr
        by (simp add: Let_def validated'_def failed'_def s1_def s2_def s3_def tl_def)
      have "sorted_wrt counters_le (map state_of tl)"
        unfolding tl_def by (rule Cons.IH [OF inv3])
      with steps later show ?thesis
        unfolding unfold
        by (auto intro: counters_le_trans)
    qed
  qed
qed

lemma start_validation_inv:
  assumes "start_validation s = Inr (s0, Some p)"
  shows "loop_inv [] [] (urls p) s0" "urls p \<noteq> []"
    "validation_status s0 = ''running''"
  using assms
  by (auto simp: start_validation_def loop_inv_def split: sum.splits option.splits if_splits)

text \<open>
  C1 (amended). In a run over the \<open>N\<close> URLs of the profile, after every statement of the
  worker: \<open>total = N\<close>, \<open>completed \<le> total\<close> and
  \<open>valid + failed \<le> completed \<le> valid + failed + 1\<close>; \<open>valid + failed = completed\<close> holds
  after every statement except the store into \<open>validation_completed\<close> and the store into
  \<open>validation_valid\<close> that follows it (an iteration updates the three counters one after
  the other). From any observation to any later one no counter decreases.
\<close>

theorem validation_counters:
  assumes "start_validation s = Inr (s0, Some p)"
  shows "list_all (observation_ok (length (urls p))) (run_validation env s0 p fs)
    \<and> sorted_wrt counters_le (map state_of (run_validation env s0 p fs))"
proof
  have inv: "loop_inv [] [] (urls p) s0" using assms by (rule start_validation_inv)
  have first: "observation_ok (length (urls p)) (Thread_start, s0, fs)"
    using inv
    by (simp add: observation_ok_def loop_inv_def counters_bounded_def counters_consistent_def
        state_of_def stmt_of_def)
  have rest: "observation_ok (length (urls p)) e \<and> counters_le s0 (state_of e)"
    if "e \<in> set (validation_loop env p 0 (urls p) [] [] s0 fs)" for e
    using loop_obs [OF inv that] inv by (simp add: observation_ok_def loop_inv_def)
  from first rest show "list_all (observation_ok (length (urls p))) (run_validation env s0 p fs)"
    by (simp add: run_validation_def list_all_iff)
  from rest loop_sorted [OF inv]
  show "sorted_wrt counters_le (map state_of (run_validation env s0 p fs))"
    by (simp add: run_validation_def)
qed

lemma demo_start: "start_validation demo_state = Inr (demo_started, Some demo_profile)"
  by (simp add: start_validation_def current_profile_def py_index_def demo_defs)

theorem validation_counters_witness:
  "start_validation demo_state = Inr (demo_started, Some demo_profile)
   \<and> list_all (observation_ok (length (urls demo_profile)))
        (run_validation demo_env demo_started demo_profile no_files)
   \<and> sorted_wrt counters_le (map state_of (run_validation demo_env demo_started demo_profile no_files))"
  using validation_counters [OF demo_start] demo_start by simp

text \<open>
  C1 (as stated, refuted). On the example network the record that the worker leaves after
  its first store has \<open>completed = 1\<close> and \<open>valid = failed = 0\<close>: an observation at that
  point does not satisfy \<open>valid + failed = completed\<close>.
\<close>

theorem validation_counters_torn:
  "start_validation demo_state = Inr (demo_started, Some demo_profile)
   \<and> \<not> list_all (\<lambda>e. counters_consistent (state_of e))
        (run_validation demo_env demo_started demo_profile no_files)"
  by (simp add: demo_start) (simp add: run_validation_def probe_def counters_consistent_def state_of_def demo_defs)


lemma on_exception_nonempty [simp]: "on_exception msg s fs \<noteq> []"
  by (simp add: on_exception_def)

lemma write_results_nonempty [simp]: "write_results env p validated failed s fs \<noteq> []"
  by (simp add: write_results_def Let_def split: sum.splits)

lemma validation_loop_nonempty [simp]: "validation_loop env p i rest validated failed s fs \<noteq> []"
  by (cases rest) (simp_all add: Let_def split: sum.splits)

lemma loop_cancelled:
  assumes "k < length rest"
    and "\<forall>j<k. \<not> cancel_is_set env (i + j) \<and> \<not> isl (probe env (i + j) (rest ! j))"
    and "cancel_is_set env (i + k)"
  shows "validation_status (final_state (validation_loop env p i rest validated failed s fs)) = ''cancelled''
    \<and> validation_completed (final_state (validation_loop env p i rest validated failed s fs))
        = validation_completed s + int k
    \<and> no_write fs (validation_loop env p i rest validated failed s fs)"
  using assms
proof (induction k arbitrary: i rest validated failed s)
  case 0
  then obtain url rest' where "rest = url # rest'" by (cases rest) auto
  with 0 show ?case
    by (simp add: final_state_def no_write_def is_write_def)
next
  case (Suc k)
  then obtain url rest' where rest: "rest = url # rest'" by (cases rest) auto
  from Suc.prems(2) have now: "\<not> cancel_is_set env i" "\<not> isl (probe env i url)"
    using rest by (auto dest: spec [of _ 0])
  then obtain ok_url where ok: "probe env i url = Inr ok_url" by (cases "probe env i url") auto
  have later: "\<forall>j<k. \<not> cancel_is_set env (Suc i + j) \<and> \<not> isl (probe env (Suc i + j) (rest' ! j))"
    using Suc.prems(2) rest by (auto dest: spec [of _ "Suc j" for j])
  from Suc.prems rest have k: "k < length rest'" "cancel_is_set env (Suc i + k)" by simp_all
  note IH = Suc.IH [OF k(1) later k(2)]
  show ?case
    unfolding rest using now ok IH
    by (simp add: Let_def final_state_def no_write_def is_write_def)
qed

lemma probe_cong:
  "h i = client_head env i \<Longrightarrow> g i = client_get env i \<Longrightarrow>
     probe (env\<lparr>client_head := h, client_get := g\<rparr>) i url = probe env i url"
  by (simp add: probe_def split: net_result.splits)

lemma loop_cancelled_indep:
  assumes "k < length rest"
    and "\<forall>j<k. \<not> cancel_is_set env (i + j)"
    and "cancel_is_set env (i + k)"
    and "\<forall>j<k. h (i + j) = client_head env (i + j) \<and> g (i + j) = client_get env (i + j)"
  shows "validation_loop (env\<lparr>client_head := h, client_get := g\<rparr>) p i rest validated failed s fs
    = validation_loop env p i rest validated failed s fs"
  using assms
proof (induction k arbitrary: i rest validated failed s)
  case 0
  then obtain url rest' where "rest = url # rest'" by (cases rest) auto
  with 0 show ?case by simp
next
  case (Suc k)
  then obtain url rest' where rest: "rest = url # rest'" by (cases rest) auto
  from Suc.prems(2) have now: "\<not> cancel_is_set env i" by (auto dest: spec [of _ 0])
  from Suc.prems(4) have "h i = client_head env i" "g i = client_get env i"
    by (auto dest: spec [of _ 0])
  then have pr: "probe (env\<lparr>client_head := h, client_get := g\<rparr>) i url = probe env i url"
    by (rule probe_cong)
  have later: "\<forall>j<k. \<not> cancel_is_set env (Suc i + j)"
    "\<forall>j<k. h (Suc i + j) = client_head env (Suc i + j) \<and> g (Suc i + j) = client_get env (Suc i + j)"
    using Suc.prems(2,4) by (auto dest: spec [of _ "Suc j" for j])
  from Suc.prems rest have k: "k < length rest'" "cancel_is_set env (Suc i + k)" by simp_all
  note IH = Suc.IH [OF k(1) later(1) k(2) later(2)]
  show ?case
    unfolding rest using now pr IH
    by (simp add: Let_def split: sum.splits)
qed

lemma write_results_texts:
  "write_results env p validated failed s fs =
     (case write_text env fs (validated_path p) (validated_text validated) of
        Inl (msg, fs') \<Rightarrow> on_exception msg s fs'
      | Inr fs1 \<Rightarrow>
          (Write_validated, s, fs1) #
          (case write_text env fs1 (report_path p) (report_text validated failed) of
             Inl (msg, fs') \<Rightarrow> on_exception msg s fs'
           | Inr fs2 \<Rightarrow>
               [(Write_report, s, fs2), (Store_status, s\<lparr>validation_status := ''done''\<rparr>, fs2)]))"
  by (simp add: write_results_def validated_path_def report_path_def validated_text_def
      report_text_def report_lines_def Let_def split: sum.splits)







lemma splitlines_from_plain:
  "\<not> linebreak c \<Longrightarrow> splitlines_from cur (c # cs) = splitlines_from (cur @ [c]) cs"
  by (cases cs) (auto simp: linebreak_def)

lemma splitlines_from_newline:
  "splitlines_from cur (CHR 0x0A # cs) = cur # splitlines_from [] cs"
  by (cases cs) (auto simp: linebreak_def)

lemma splitlines_from_line:
  "\<not> list_ex linebreak x \<Longrightarrow>
     splitlines_from cur (x @ CHR 0x0A # cs) = (cur @ x) # splitlines_from [] cs"
  by (induction x arbitrary: cur) (simp_all add: splitlines_from_plain splitlines_from_newline)

lemma join_Cons: "xs \<noteq> [] \<Longrightarrow> join sep (x # xs) = x @ sep @ join sep xs"
  by (cases xs) simp_all

lemma splitlines_join:
  "xs \<noteq> [] \<Longrightarrow> list_all (\<lambda>x. \<not> list_ex linebreak x) xs \<Longrightarrow>
     splitlines_from [] (join ''\<newline>'' xs @ ''\<newline>'') = xs"
proof (induction xs)
  case Nil
  then show ?case by simp
next
  case (Cons x xs)
  show ?case
  proof (cases "xs = []")
    case True
    with Cons.prems splitlines_from_line [of x "[]" "[]"] show ?thesis by simp
  next
    case False
    with Cons splitlines_from_line [of x "[]" "join ''\<newline>'' xs @ ''\<newline>''"]
    show ?thesis by (simp add: join_Cons)
  qed
qed

lemma join_nonempty: "xs \<noteq> [] \<Longrightarrow> last xs \<noteq> [] \<Longrightarrow> join sep xs \<noteq> []"
  by (induction sep xs rule: join.induct) auto

lemma last_join: "xs \<noteq> [] \<Longrightarrow> last xs \<noteq> [] \<Longrightarrow> last (join sep xs) = last (last xs)"
  by (induction sep xs rule: join.induct) (auto simp: join_nonempty)

lemma hd_join: "x \<noteq> [] \<Longrightarrow> hd (join sep (x # xs)) = hd x"
  by (cases xs) simp_all

lemma strip_trimmed:
  assumes "s \<noteq> []" "\<not> isspace (hd s)" "\<not> isspace (last s)"
  shows "strip s = s"
proof -
  from assms have "dropWhile isspace s = s" by (simp add: dropWhile_eq_self_iff)
  moreover from assms have "dropWhile isspace (rev s) = rev s"
    by (simp add: dropWhile_eq_self_iff hd_rev)
  ultimately show ?thesis by (simp add: strip_def lstrip_def rstrip_def)
qed

lemma digit_char_digit: "d < 10 \<Longrightarrow> digit_char d \<in> set ''0123456789''"
proof -
  assume "d < 10"
  then have "d \<in> {0, 1, 2, 3, 4, 5, 6, 7, 8, 9}" by auto
  then show ?thesis by (auto simp: digit_char_def)
qed

lemma str_nat_digits: "set (str_nat n) \<subseteq> set ''0123456789''"
proof (induction n rule: str_nat.induct)
  case (1 n)
  show ?case
  proof (cases "n < 10")
    case True
    with digit_char_digit [of n] show ?thesis by (subst str_nat.simps) simp
  next
    case False
    with 1 digit_char_digit [of "n mod 10"] show ?thesis by (subst str_nat.simps) simp
  qed
qed

lemma str_nat_no_linebreak: "\<not> list_ex linebreak (str_nat n)"
  using str_nat_digits [of n] by (auto simp: list_ex_iff linebreak_def)

lemma linebreak_isspace: "linebreak c \<Longrightarrow> isspace c"
  by (auto simp: linebreak_def isspace_def py_whitespace_def)

lemma paths_differ [simp]: "validated_path p \<noteq> report_path p" "report_path p \<noteq> validated_path p"
  by (simp_all add: validated_path_def report_path_def with_name_def)

lemma failed_urls_subset: "set (failed_urls env i us) \<subseteq> set us"
  by (induction us arbitrary: i) (auto split: sum.splits option.splits if_splits)

lemma collected_length: "length (valid_urls env i us) + length (failed_urls env i us) = length us"
  by (induction us arbitrary: i) (auto split: sum.splits option.splits)

lemma loop_done:
  assumes "loop_inv validated failed rest s"
    and "\<forall>j<length rest. \<not> cancel_is_set env (i + j) \<and> \<not> isl (probe env (i + j) (rest ! j))"
    and "write_text_error env (validated_path p) = None"
    and "write_text_error env (report_path p) = None"
  shows "validation_status (final_state (validation_loop env p i rest validated failed s fs)) = ''done''
    \<and> validation_valid (final_state (validation_loop env p i rest validated failed s fs))
        = int (length (validated @ valid_urls env i rest))
    \<and> validation_failed (final_state (validation_loop env p i rest validated failed s fs))
        = int (length (failed @ failed_urls env i rest))
    \<and> validation_completed (final_state (validation_loop env p i rest validated failed s fs))
        = validation_total s
    \<and> final_files (validation_loop env p i rest validated failed s fs)
        = fs(validated_path p \<mapsto> validated_text (validated @ valid_urls env i rest),
             report_path p \<mapsto> report_text (validated @ valid_urls env i rest)
                                  (failed @ failed_urls env i rest))"
  using assms(1,2)
proof (induction rest arbitrary: i validated failed s)
  case Nil
  with assms(3,4) show ?case
    by (simp add: write_results_texts write_text_def final_state_def final_files_def loop_inv_def
        fun_upd_def)
next
  case (Cons url rest)
  from Cons.prems(2) have now: "\<not> cancel_is_set env i" "\<not> isl (probe env i url)"
    by (auto dest: spec [of _ 0])
  then obtain ok_url where ok: "probe env i url = Inr ok_url" by (cases "probe env i url") auto
  have later: "\<forall>j<length rest. \<not> cancel_is_set env (Suc i + j) \<and> \<not> isl (probe env (Suc i + j) (rest ! j))"
    using Cons.prems(2) by (auto dest: spec [of _ "Suc j" for j])
  define validated' where "validated' = (if ok_url \<noteq> None \<and> ok_url \<noteq> Some []
                                then validated @ [the ok_url] else validated)"
  define failed' where "failed' = (if ok_url \<noteq> None \<and> ok_url \<noteq> Some []
                             then failed else failed @ [url])"
  define s3 where "s3 = s\<lparr>validation_completed := validation_completed s + 1,
        validation_valid := int (length validated'), validation_failed := int (length failed')\<rparr>"
  define tl where "tl = validation_loop env p (Suc i) rest validated' failed' s3 fs"
  have inv3: "loop_inv validated' failed' rest s3"
    using Cons.prems(1)
    by (auto simp: loop_inv_def s3_def validated'_def failed'_def)
  have tot: "validation_total s3 = validation_total s" by (simp add: s3_def)
  have lists: "validated' @ valid_urls env (Suc i) rest = validated @ valid_urls env i (url # rest)"
      "failed' @ failed_urls env (Suc i) rest = failed @ failed_urls env i (url # rest)"
    using ok by (cases ok_url; cases "the ok_url = []"; simp add: validated'_def failed'_def)+
  have "\<exists>s1 s2. validation_loop env p i (url # rest) validated failed s fs =
      (Store_completed, s1, fs) # (Store_valid, s2, fs) # (Store_failed, s3, fs) # tl"
    using now ok by (simp add: Let_def validated'_def failed'_def s3_def tl_def)
  then obtain s1 s2 where eq: "validation_loop env p i (url # rest) validated failed s fs =
      (Store_completed, s1, fs) # (Store_valid, s2, fs) # (Store_failed, s3, fs) # tl"
    by blast
  have ne: "tl \<noteq> []" by (simp add: tl_def)
  from Cons.IH [OF inv3 later] ne show ?case
    unfolding eq tl_def [symmetric] lists tot
    by (simp add: final_state_def final_files_def)
qed

text \<open>
  C2 (amended). In a run over the URLs of the profile, let the cancellation flag read unset
  at the top of the first \<open>k\<close> iterations (whose probes raise nothing but
  \<^verbatim>\<open>httpx.HTTPError\<close>) and set at the top of iteration \<open>k\<close>, \<open>k\<close> below the number of URLs.
  Then the run ends with status \<^verbatim>\<open>cancelled\<close> and \<open>completed = k\<close>, none of its statements
  is a write and the files are never changed; and the flag is read before the probe: what
  the network would answer from the \<open>k\<close>-th URL on does not change the run.
\<close>

theorem cancelled_run:
  assumes "start_validation s = Inr (s0, Some p)"
    and "k < length (urls p)"
    and "\<forall>i<k. \<not> cancel_is_set env i \<and> \<not> isl (probe env i (urls p ! i))"
    and "cancel_is_set env k"
  shows "validation_status (final_state (run_validation env s0 p fs)) = ''cancelled''
    \<and> validation_completed (final_state (run_validation env s0 p fs)) = int k
    \<and> no_write fs (run_validation env s0 p fs)
    \<and> ((\<forall>i<k. h i = client_head env i \<and> g i = client_get env i) \<longrightarrow>
          run_validation (env\<lparr>client_head := h, client_get := g\<rparr>) s0 p fs
            = run_validation env s0 p fs)"
proof -
  have c0: "validation_completed s0 = 0"
    using start_validation_inv(1) [OF assms(1)] by (simp add: loop_inv_def)
  from assms(3) have nc: "\<forall>j<k. \<not> cancel_is_set env (0 + j) \<and> \<not> isl (probe env (0 + j) (urls p ! j))"
    by simp
  from assms(4) have ck: "cancel_is_set env (0 + k)" by simp
  from loop_cancelled [OF assms(2) nc ck, of p "[]" "[]" s0 fs] c0
  have main: "validation_status (final_state (run_validation env s0 p fs)) = ''cancelled''
    \<and> validation_completed (final_state (run_validation env s0 p fs)) = int k
    \<and> no_write fs (run_validation env s0 p fs)"
    by (simp add: run_validation_def final_state_def no_write_def is_write_def)
  have "run_validation (env\<lparr>client_head := h, client_get := g\<rparr>) s0 p fs = run_validation env s0 p fs"
    if "\<forall>i<k. h i = client_head env i \<and> g i = client_get env i"
  proof -
    from assms(3) have a: "\<forall>j<k. \<not> cancel_is_set env (0 + j)" by simp
    from that have b: "\<forall>j<k. h (0 + j) = client_head env (0 + j) \<and> g (0 + j) = client_get env (0 + j)"
      by simp
    from loop_cancelled_indep [OF assms(2) a ck b] show ?thesis
      by (simp add: run_validation_def)
  qed
  with main show ?thesis by blast
qed

lemma report_text_lines:
  assumes "list_all (\<lambda>u. u \<noteq> [] \<and> \<not> list_ex isspace u) failed"
  shows "splitlines (report_text validated failed) = report_lines validated failed"
proof -
  let ?ls = "report_lines validated failed"
  have ne: "?ls \<noteq> []" by (simp add: report_lines_def)
  have last_ne: "last ?ls \<noteq> []" and last_ok: "\<not> isspace (last (last ?ls))"
    using assms
    by (cases failed rule: rev_cases;
        simp add: report_lines_def isspace_def py_whitespace_def list_ex_iff)+
  have hd_ok: "\<not> isspace (hd (join ''\<newline>'' ?ls))"
    by (simp add: report_lines_def isspace_def py_whitespace_def)
  from ne last_ne last_ok hd_ok have "strip (join ''\<newline>'' ?ls) = join ''\<newline>'' ?ls"
    by (intro strip_trimmed) (simp_all add: join_nonempty last_join)
  moreover have "list_all (\<lambda>x. \<not> list_ex linebreak x) ?ls"
  proof -
    have "\<not> list_ex linebreak ''Validated: ''" "\<not> list_ex linebreak ''Failed: ''"
        "\<not> list_ex linebreak ''Failed URLs:''"
      by (simp_all add: linebreak_def)
    moreover have "list_all (\<lambda>x. \<not> list_ex linebreak x) failed"
      using assms linebreak_isspace by (auto simp: list_all_iff list_ex_iff)
    ultimately show ?thesis
      using str_nat_no_linebreak by (simp add: report_lines_def)
  qed
  ultimately show ?thesis
    using ne by (simp add: report_text_def splitlines_def splitlines_join)
qed

lemma validated_text_lines:
  assumes "list_all (\<lambda>u. \<not> list_ex linebreak u) validated"
  shows "splitlines (validated_text validated) = (if validated = [] then [[]] else validated)"
  using assms by (simp add: validated_text_def splitlines_def splitlines_join linebreak_def)

text \<open>
  C3 (amended). Let a run go through all URLs of the profile: the flag is never read set,
  no probe raises anything but \<^verbatim>\<open>httpx.HTTPError\<close>, both writes succeed; let the URLs
  of the profile be non-empty and free of whitespace (as \<^verbatim>\<open>normalize_url\<close> returns them)
  and the final URLs free of line boundaries. Then the status is \<^verbatim>\<open>done\<close>, \<open>valid\<close> and
  \<open>failed\<close> count the URLs found valid and failed, and both artifacts are written. The
  validated list ends with a newline and its lines are the final URLs of the valid URLs
  in probe order, so \<open>valid\<close> lines, when there is one at least; with no valid URL it is one
  empty line. The lines of the report are \<^verbatim>\<open>Validated: <valid>\<close>, \<^verbatim>\<open>Failed: <failed>\<close>,
  an empty line, \<^verbatim>\<open>Failed URLs:\<close> and then the failed URLs as they were requested, in
  probe order.
\<close>

theorem completed_run_artifacts:
  assumes "start_validation s = Inr (s0, Some p)"
    and "\<forall>i<length (urls p). \<not> cancel_is_set env i \<and> \<not> isl (probe env i (urls p ! i))"
    and "write_text_error env (validated_path p) = None"
    and "write_text_error env (report_path p) = None"
    and "list_all (\<lambda>u. u \<noteq> [] \<and> \<not> list_ex isspace u) (urls p)"
    and "list_all (\<lambda>u. \<not> list_ex linebreak u) (valid_urls env 0 (urls p))"
  shows "validation_status (final_state (run_validation env s0 p fs)) = ''done''
    \<and> validation_valid (final_state (run_validation env s0 p fs))
        = int (length (valid_urls env 0 (urls p)))
    \<and> validation_failed (final_state (run_validation env s0 p fs))
        = int (length (failed_urls env 0 (urls p)))
    \<and> final_files (run_validation env s0 p fs) (validated_path p)
        = Some (validated_text (valid_urls env 0 (urls p)))
    \<and> splitlines (validated_text (valid_urls env 0 (urls p)))
        = (if valid_urls env 0 (urls p) = [] then [[]] else valid_urls env 0 (urls p))
    \<and> final_files (run_validation env s0 p fs) (report_path p)
        = Some (report_text (valid_urls env 0 (urls p)) (failed_urls env 0 (urls p)))
    \<and> splitlines (report_text (valid_urls env 0 (urls p)) (failed_urls env 0 (urls p)))
        = [''Validated: '' @ str_nat (length (valid_urls env 0 (urls p))),
           ''Failed: '' @ str_nat (length (failed_urls env 0 (urls p))),
           [], ''Failed URLs:''] @ failed_urls env 0 (urls p)"
proof -
  have inv: "loop_inv [] [] (urls p) s0" using assms(1) by (rule start_validation_inv)
  from assms(2)
  have nc: "\<forall>j<length (urls p). \<not> cancel_is_set env (0 + j) \<and> \<not> isl (probe env (0 + j) (urls p ! j))"
    by simp
  note fin = loop_done [OF inv nc assms(3,4), of fs]
  have "list_all (\<lambda>u. u \<noteq> [] \<and> \<not> list_ex isspace u) (failed_urls env 0 (urls p))"
    using assms(5) failed_urls_subset [of env 0 "urls p"] by (auto simp: list_all_iff)
  then have rep: "splitlines (report_text (valid_urls env 0 (urls p)) (failed_urls env 0 (urls p)))
      = report_lines (valid_urls env 0 (urls p)) (failed_urls env 0 (urls p))"
    by (rule report_text_lines)
  note val = validated_text_lines [OF assms(6)]
  from fin rep val show ?thesis
    by (simp add: run_validation_def final_state_def final_files_def report_lines_def)
qed

lemma demo_probes:
  "probe demo_env 0 ''https://a.com/job/1'' = Inr (Some ''https://a.com/job/1'')"
  "probe demo_env (Suc 0) ''https://example.com'' = Inr (Some ''https://example.com'')"
  "probe demo_env 2 ''https://b.org/gone'' = Inr None"
  by (simp_all add: probe_def demo_defs)

lemma below_3: "i < 3 \<Longrightarrow> i = 0 \<or> i = Suc 0 \<or> i = 2" for i :: nat
  by arith

theorem cancelled_run_witness:
  "validation_status (final_state (run_validation cancel_env demo_started demo_profile old_files))
     = ''cancelled''
   \<and> validation_completed (final_state (run_validation cancel_env demo_started demo_profile old_files))
     = 1
   \<and> no_write old_files (run_validation cancel_env demo_started demo_profile old_files)
   \<and> run_validation (cancel_env\<lparr>client_head := dead_after_first, client_get := demo_get\<rparr>)
        demo_started demo_profile old_files
     = run_validation cancel_env demo_started demo_profile old_files"
proof -
  have k: "1 < length (urls demo_profile)" by (simp add: demo_profile_def)
  have before: "\<forall>i<1. \<not> cancel_is_set cancel_env i
      \<and> \<not> isl (probe cancel_env i (urls demo_profile ! i))"
    by (simp add: probe_def demo_defs)
  have at: "cancel_is_set cancel_env 1" by (simp add: demo_defs)
  have same: "\<forall>i<1. dead_after_first i = client_head cancel_env i
      \<and> demo_get i = client_get cancel_env i"
    by (auto simp: demo_defs)
  from cancelled_run [OF demo_start k before at, where h = dead_after_first and g = demo_get
      and fs = old_files] same
  show ?thesis by simp
qed

text \<open>
  A flag that is set with \<open>k\<close> URLs processed, after the worker has read it at the top
  of iteration \<open>k\<close>, is read set one iteration later: the run ends with
  \<open>completed = k + 1\<close>.
\<close>

lemma flag_set_during_probe:
  assumes "start_validation s = Inr (s0, Some p)"
    and "cancel_is_set env = flag_reads (Set_during_probe k)"
    and "k + 1 < length (urls p)"
    and "\<forall>i\<le>k. \<not> isl (probe env i (urls p ! i))"
  shows "validation_status (final_state (run_validation env s0 p fs)) = ''cancelled''
    \<and> validation_completed (final_state (run_validation env s0 p fs)) = int k + 1"
proof -
  have c0: "validation_completed s0 = 0"
    using start_validation_inv(1) [OF assms(1)] by (simp add: loop_inv_def)
  from assms(2,4)
  have nc: "\<forall>j<k + 1. \<not> cancel_is_set env (0 + j) \<and> \<not> isl (probe env (0 + j) (urls p ! j))"
    by simp
  from assms(2) have ck: "cancel_is_set env (0 + (k + 1))" by simp
  from loop_cancelled [OF assms(3) nc ck, of p "[]" "[]" s0 fs] c0 show ?thesis
    by (simp add: run_validation_def final_state_def)
qed

text \<open>
  C2 (as stated, refuted). On the example network let the flag be set with two of the
  three URLs processed, while the worker probes the third. The worker does not read it
  again: the run ends with status \<^verbatim>\<open>done\<close> and \<open>completed = 3\<close>, and has written both
  artifacts.
\<close>

theorem flag_set_during_last_probe:
  "start_validation demo_state = Inr (demo_started, Some demo_profile)
   \<and> cancel_is_set late_cancel_env = flag_reads (Set_during_probe 2)
   \<and> processed_when_set (Set_during_probe 2) = Some 2
   \<and> 2 < length (urls demo_profile)
   \<and> validation_status (final_state (run_validation late_cancel_env demo_started demo_profile old_files))
       = ''done''
   \<and> validation_completed (final_state (run_validation late_cancel_env demo_started demo_profile old_files))
       = 3
   \<and> final_files (run_validation late_cancel_env demo_started demo_profile old_files)
        ''profiles/demo/jobs_validated.txt''
       = Some ''https://a.com/job/1\<newline>https://example.com\<newline>''
   \<and> map_option splitlines
        (final_files (run_validation late_cancel_env demo_started demo_profile old_files)
           ''profiles/demo/jobs_report.txt'')
       = Some [''Validated: 2'', ''Failed: 1'', [], ''Failed URLs:'', ''https://b.org/gone'']"
proof -
  have n: "str_nat (Suc (Suc 0)) = ''2''" "str_nat (Suc 0) = ''1''"
    by (simp_all add: str_nat.simps digit_char_def)
  show ?thesis
    by (simp add: demo_start)
      (simp add: run_validation_def final_state_def final_files_def probe_def write_results_def
        write_text_def with_name_def Let_def splitlines_def linebreak_def strip_def lstrip_def
        rstrip_def isspace_def py_whitespace_def n demo_defs)
qed

lemma refusing_run_error:
  "validation_status (final_state (run_validation refusing_env demo_started demo_profile old_files))
     = ''error''"
  by (simp add: run_validation_def final_state_def probe_def write_results_texts write_text_def
      on_exception_def validated_path_def report_path_def with_name_def Let_def demo_defs)




theorem completed_run_artifacts_witness:
  "validation_status (final_state (run_validation demo_env demo_started demo_profile old_files)) = ''done''
   \<and> validation_valid (final_state (run_validation demo_env demo_started demo_profile old_files)) = 2
   \<and> validation_failed (final_state (run_validation demo_env demo_started demo_profile old_files)) = 1
   \<and> map_option splitlines
        (final_files (run_validation demo_env demo_started demo_profile old_files)
           ''profiles/demo/jobs_validated.txt'')
       = Some [''https://a.com/job/1'', ''https://example.com'']
   \<and> map_option splitlines
        (final_files (run_validation demo_env demo_started demo_profile old_files)
           ''profiles/demo/jobs_report.txt'')
       = Some [''Validated: 2'', ''Failed: 1'', [], ''Failed URLs:'', ''https://b.org/gone'']"
proof -
  have nc: "\<forall>i<length (urls demo_profile). \<not> cancel_is_set demo_env i
      \<and> \<not> isl (probe demo_env i (urls demo_profile ! i))"
  proof (intro allI impI)
    fix i assume "i < length (urls demo_profile)"
    then have "i < 3" by (simp add: demo_profile_def)
    then have "i = 0 \<or> i = Suc 0 \<or> i = 2" by (rule below_3)
    moreover have "\<not> cancel_is_set demo_env i" by (simp add: demo_env_def never_def)
    ultimately show "\<not> cancel_is_set demo_env i
        \<and> \<not> isl (probe demo_env i (urls demo_profile ! i))"
      using demo_probes by (auto simp: demo_profile_def)
  qed
  have w: "write_text_error demo_env (validated_path demo_profile) = None"
      "write_text_error demo_env (report_path demo_profile) = None"
    by (simp_all add: demo_env_def disk_ok_def)
  have canon: "list_all (\<lambda>u. u \<noteq> [] \<and> \<not> list_ex isspace u) (urls demo_profile)"
    by (simp add: demo_profile_def isspace_def py_whitespace_def)
  have V: "valid_urls demo_env 0 (urls demo_profile) = [''https://a.com/job/1'', ''https://example.com'']"
    using demo_probes by (simp add: demo_profile_def numeral_2_eq_2)
  have F: "failed_urls demo_env 0 (urls demo_profile) = [''https://b.org/gone'']"
    using demo_probes by (simp add: demo_profile_def numeral_2_eq_2)
  have lb: "list_all (\<lambda>u. \<not> list_ex linebreak u) (valid_urls demo_env 0 (urls demo_profile))"
    unfolding V by (simp add: linebreak_def)
  have paths: "validated_path demo_profile = ''profiles/demo/jobs_validated.txt''"
      "report_path demo_profile = ''profiles/demo/jobs_report.txt''"
    by (simp_all add: validated_path_def report_path_def with_name_def demo_profile_def)
  have n: "str_nat (Suc (Suc 0)) = ''2''" "str_nat (Suc 0) = ''1''"
    by (simp_all add: str_nat.simps digit_char_def)
  from completed_run_artifacts [OF demo_start nc w canon lb, of old_files]
  show ?thesis unfolding V F paths by (simp add: n)
qed

text \<open>
  C3 (as stated, refuted). With no network every URL fails: the run ends with status
  \<^verbatim>\<open>done\<close> and \<open>valid = 0\<close>, and the validated list it writes is a lone newline, which is
  one line, not \<open>valid\<close> lines.
\<close>

theorem no_valid_url_one_line:
  "start_validation demo_state = Inr (demo_started, Some demo_profile)
   \<and> validation_status (final_state (run_validation offline_env demo_started demo_profile no_files))
       = ''done''
   \<and> validation_valid (final_state (run_validation offline_env demo_started demo_profile no_files)) = 0
   \<and> map_option splitlines
        (final_files (run_validation offline_env demo_started demo_profile no_files)
           ''profiles/demo/jobs_validated.txt'')
       = Some [[]]"
  by (simp add: demo_start)
    (simp add: run_validation_def final_state_def final_files_def probe_def write_results_def
      write_text_def with_name_def splitlines_def linebreak_def Let_def demo_defs)

section \<open>Properties of the session\<close>








subsection \<open>The company-selection screen\<close>













lemmas session_defs = main_loop_body_def handle_main_menu_def handle_ai_keywords_def
  handle_ai_locations_def handle_ai_companies_def init_ai_prompt_builder_def lift_io_def
  current_profile_def py_index_def load_search_specs_def demo_session_def no_specs_def
  demo_state_def demo_profile_def AppState_init_def companies_screen_def cursor_at_def
  COMPANY_BATCH_SIZE_def DEFAULT_COMPANIES_def Let_def isdigit_def py_digits_def







subsection \<open>Entering the company-selection screen\<close>

text \<open>
  \<^verbatim>\<open>init_ai_prompt_builder\<close>, which the key \<open>g\<close> of the main menu runs, sets the batch index
  and keeps the cursor.
\<close>

lemma add_source_cursor:
  "selection_idx (add_source s src) = selection_idx s"
  "ai_company_batch_idx (add_source s src) = ai_company_batch_idx s"
  by (simp_all add: add_source_def)

lemma add_sources_cursor:
  "selection_idx (foldl add_source s srcs) = selection_idx s"
  "ai_company_batch_idx (foldl add_source s srcs) = ai_company_batch_idx s"
  by (induction srcs arbitrary: s) (simp_all add: add_source_cursor)

lemma init_keeps_cursor:
  assumes "init_ai_prompt_builder load s = Inr s'"
  shows "selection_idx s' = selection_idx s" "ai_company_batch_idx s' = Some 0"
  using assms
  by (auto simp add: init_ai_prompt_builder_def Let_def add_sources_cursor
      split: sum.splits option.splits)

text \<open>The key \<open>n\<close> of the locations screen, which enters the screen, changes the screen only.\<close>

lemma locations_next_keeps_cursor:
  "handle_ai_locations s ''n'' keys = Done (s\<lparr>screen := AI_PROMPT_COMPANIES\<rparr>) keys"
  by (simp add: handle_ai_locations_def)

text \<open>
  C8. Entering the company-selection screen does not initialise the cursor:
  \<^verbatim>\<open>init_ai_prompt_builder\<close> sets the batch index to 0 and leaves \<^verbatim>\<open>selection_idx\<close>, and the
  key \<open>n\<close> of the locations screen only changes the screen (where the key \<open>p\<close> of the main
  menu sets \<^verbatim>\<open>selection_idx = profile_idx\<close> on entering the profile selection). From the
  main menu, the keys \<open>g\<close>, \<open>n\<close>, \<open>n\<close> enter the screen, \<open>>\<close> moves to the second page
  (cursor 10), \<open>b\<close> three times goes back to the main menu, and \<open>g\<close>, \<open>n\<close>, \<open>n\<close> enter the
  screen again: it displays the first page, candidates 0 to 9, with the cursor of the
  previous visit, 10, which is not on that page.
\<close>

theorem stale_cursor_on_reentry:
  "main_loop 10 demo_session demo_state
      [''g'', ''n'', ''n'', ''>'', ''b'', ''b'', ''b'', ''g'', ''n'', ''n'']
     = Done (cursor_at 0 10) []
   \<and> screen (cursor_at 0 10) = AI_PROMPT_COMPANIES
   \<and> ai_company_batch_idx (cursor_at 0 10) = Some 0
   \<and> selection_idx (cursor_at 0 10) = 10
   \<and> \<not> cursor_on_page (cursor_at 0 10)"
  by (simp add: eval_nat_numeral session_defs cursor_on_page_def)
end
